theory Spec2Isabelle
  imports Complex_Main
begin

section \<open>Python values used by the trackers\<close>

text \<open>
  The three programs (\<^verbatim>\<open>tracker_server.py\<close>, \<^verbatim>\<open>hand_lung_tracker.py\<close>,
  \<^verbatim>\<open>heart_tracker.py\<close>) work on pixel coordinates, which are Python integers, and on
  normalised landmark coordinates, which are Python floats. Integers are \<^typ>\<open>int\<close>.
  Floats are idealised as \<^typ>\<open>real\<close>: rounding error, infinities and NaN are outside the
  model. A subscript that is out of range raises \<^verbatim>\<open>IndexError\<close> and a division by
  zero raises \<^verbatim>\<open>ZeroDivisionError\<close>; these are the exceptions the modelled code could
  raise, and they are values here.
\<close>

datatype error = IndexError | ZeroDivisionError

type_synonym pt = "int \<times> int"

type_synonym 'v dict = "(string \<times> 'v) list"

record landmark =
  lm_x :: real
  lm_y :: real

text \<open>\<^verbatim>\<open>int(x)\<close> on a float: truncation towards zero.\<close>

definition py_int :: "real \<Rightarrow> int" where
  "py_int v = (if 0 \<le> v then \<lfloor>v\<rfloor> else \<lceil>v\<rceil>)"

text \<open>\<^verbatim>\<open>a / b\<close> on floats.\<close>

definition py_truediv :: "real \<Rightarrow> real \<Rightarrow> error + real" where
  "py_truediv a b = (if b = 0 then Inl ZeroDivisionError else Inr (a / b))"

text \<open>\<^verbatim>\<open>xs[i]\<close> for a literal index \<open>i \<ge> 0\<close>.\<close>

definition py_index :: "'a list \<Rightarrow> nat \<Rightarrow> error + 'a" where
  "py_index xs i = (if i < length xs then Inr (xs ! i) else Inl IndexError)"

text \<open>
  A Python \<^verbatim>\<open>dict\<close> with string keys is an association list in insertion order.
  \<^verbatim>\<open>d.get(k, default)\<close>, \<^verbatim>\<open>k in d\<close> and \<^verbatim>\<open>d[k] = v\<close> (overwrite in place, or append
  a new key at the end).
\<close>

definition dict_get :: "'v dict \<Rightarrow> string \<Rightarrow> 'v \<Rightarrow> 'v" where
  "dict_get d k dflt = (case map_of d k of None \<Rightarrow> dflt | Some v \<Rightarrow> v)"

definition dict_contains :: "'v dict \<Rightarrow> string \<Rightarrow> bool" where
  "dict_contains d k = (k \<in> set (map fst d))"

fun dict_set :: "'v dict \<Rightarrow> string \<Rightarrow> 'v \<Rightarrow> 'v dict" where
  "dict_set [] k v = [(k, v)]"
| "dict_set (e # d) k v = (if fst e = k then (k, v) # d else e # dict_set d k v)"

text \<open>\<^verbatim>\<open>str.lower()\<close>, on ASCII letters.\<close>

definition lower_char :: "char \<Rightarrow> char" where
  "lower_char c =
     (case map_of (zip ''ABCDEFGHIJKLMNOPQRSTUVWXYZ'' ''abcdefghijklmnopqrstuvwxyz'') c of
        None \<Rightarrow> c
      | Some l \<Rightarrow> l)"

definition str_lower :: "string \<Rightarrow> string" where
  "str_lower s = map lower_char s"

section \<open>Utilities\<close>

text \<open>\<^verbatim>\<open>def px(lm, w, h): return int(lm.x * w), int(lm.y * h)\<close>\<close>

definition px :: "landmark \<Rightarrow> int \<Rightarrow> int \<Rightarrow> pt" where
  "px lm w h = (py_int (lm_x lm * real_of_int w), py_int (lm_y lm * real_of_int h))"

text \<open>
  \<^verbatim>\<open>def dist(a, b): return math.hypot(a[0] - b[0], a[1] - b[1])\<close>
  (named \<open>dist_pts\<close>: \<open>dist\<close> is the metric of the library).
\<close>

definition dist_pts :: "pt \<Rightarrow> pt \<Rightarrow> real" where
  "dist_pts a b = sqrt ((real_of_int (fst a - fst b))\<^sup>2 + (real_of_int (snd a - snd b))\<^sup>2)"

section \<open>Anatomy\<close>

text \<open>
  A target is a Python dict with the keys \<^verbatim>\<open>"name"\<close> and \<^verbatim>\<open>"pos"\<close>; the server and the
  heart tracker add \<^verbatim>\<open>"order"\<close>.
\<close>

record target =
  name :: string
  pos :: pt

record otarget = target +
  order :: int

type_synonym anchors = "pt \<times> pt \<times> pt \<times> pt"

definition get_body_anchors :: "landmark list \<Rightarrow> int \<Rightarrow> int \<Rightarrow> error + anchors" where
  "get_body_anchors plm w h =
     (case py_index plm 11 of Inl e \<Rightarrow> Inl e | Inr l11 \<Rightarrow>
     (case py_index plm 12 of Inl e \<Rightarrow> Inl e | Inr l12 \<Rightarrow>
     (case py_index plm 23 of Inl e \<Rightarrow> Inl e | Inr l23 \<Rightarrow>
     (case py_index plm 24 of Inl e \<Rightarrow> Inl e | Inr l24 \<Rightarrow>
        Inr (px l11 w h, px l12 w h, px l23 w h, px l24 w h)))))"

text \<open>\<^verbatim>\<open>compute_cardiac_points\<close> of \<^verbatim>\<open>tracker_server.py\<close>.\<close>

definition compute_cardiac_points ::
  "landmark list \<Rightarrow> int \<Rightarrow> int \<Rightarrow> error + (otarget list \<times> anchors)" where
  "compute_cardiac_points plm w h =
     (case get_body_anchors plm w h of
        Inl e \<Rightarrow> Inl e
      | Inr (ls, rs, lh, rh) \<Rightarrow>
          let torso_h = py_int (real_of_int ((snd lh - snd ls) + (snd rh - snd rs)) / 2);
              mid_x = (fst ls + fst rs) div 2;
              top_y = (snd ls + snd rs) div 2;
              shoulder_w = \<bar>fst rs - fst ls\<bar>;
              stb = py_int (real_of_int shoulder_w * 0.11);
              mcl = py_int (real_of_int shoulder_w * 0.32);
              ics2 = py_int (real_of_int torso_h * 0.12);
              ics3 = py_int (real_of_int torso_h * 0.21);
              ics4 = py_int (real_of_int torso_h * 0.30);
              ics5 = py_int (real_of_int torso_h * 0.39)
          in Inr ([\<lparr>name = ''Aortic'', pos = (mid_x - stb, top_y + ics2), order = 1\<rparr>,
                   \<lparr>name = ''Pulmonic'', pos = (mid_x + stb, top_y + ics2), order = 2\<rparr>,
                   \<lparr>name = ''Erb's Pt'', pos = (mid_x + stb, top_y + ics3), order = 3\<rparr>,
                   \<lparr>name = ''Tricuspid'', pos = (mid_x + stb, top_y + ics4), order = 4\<rparr>,
                   \<lparr>name = ''Mitral'', pos = (mid_x + mcl, top_y + ics5), order = 5\<rparr>],
                  (ls, rs, lh, rh)))"

text \<open>\<^verbatim>\<open>compute_lung_points\<close> of \<^verbatim>\<open>tracker_server.py\<close>.\<close>

definition compute_lung_points ::
  "landmark list \<Rightarrow> int \<Rightarrow> int \<Rightarrow> error + (otarget list \<times> anchors)" where
  "compute_lung_points plm w h =
     (case get_body_anchors plm w h of
        Inl e \<Rightarrow> Inl e
      | Inr (ls, rs, lh, rh) \<Rightarrow>
          let torso_h = py_int (real_of_int ((snd lh - snd ls) + (snd rh - snd rs)) / 2);
              mid_x = (fst ls + fst rs) div 2;
              top_y = (snd ls + snd rs) div 2;
              mcl = py_int (real_of_int \<bar>fst rs - fst ls\<bar> * 0.32)
          in Inr ([\<lparr>name = ''R Apex'', pos = (mid_x - mcl, top_y + py_int (real_of_int torso_h * 0.03)), order = 1\<rparr>,
                   \<lparr>name = ''L Apex'', pos = (mid_x + mcl, top_y + py_int (real_of_int torso_h * 0.03)), order = 2\<rparr>,
                   \<lparr>name = ''R Upper'', pos = (mid_x - mcl, top_y + py_int (real_of_int torso_h * 0.14)), order = 3\<rparr>,
                   \<lparr>name = ''L Upper'', pos = (mid_x + mcl, top_y + py_int (real_of_int torso_h * 0.14)), order = 4\<rparr>,
                   \<lparr>name = ''R Middle'', pos = (mid_x - mcl, top_y + py_int (real_of_int torso_h * 0.32)), order = 5\<rparr>,
                   \<lparr>name = ''R Lower'', pos = (mid_x - mcl, top_y + py_int (real_of_int torso_h * 0.50)), order = 6\<rparr>,
                   \<lparr>name = ''L Lower'', pos = (mid_x + mcl, top_y + py_int (real_of_int torso_h * 0.50)), order = 7\<rparr>],
                  (ls, rs, lh, rh)))"

section \<open>Per-frame tracking\<close>

text \<open>
  The drawing routines paint pixels, which are not modelled; what is kept of
  \<^verbatim>\<open>draw_skeleton\<close> and \<^verbatim>\<open>draw_hand\<close> is that they read landmarks up to index 28 and
  20, and so raise on a shorter landmark list.
\<close>

definition draw_skeleton :: "landmark list \<Rightarrow> int \<Rightarrow> int \<Rightarrow> error + unit" where
  "draw_skeleton plm w h = (case py_index plm 28 of Inl e \<Rightarrow> Inl e | Inr _ \<Rightarrow> Inr ())"

definition draw_hand :: "landmark list \<Rightarrow> int \<Rightarrow> int \<Rightarrow> error + unit" where
  "draw_hand hlm w h = (case py_index hlm 20 of Inl e \<Rightarrow> Inl e | Inr _ \<Rightarrow> Inr ())"

text \<open>
  Resynchronising the visited dict with the frame's targets:
  \<^verbatim>\<open>
  current_names = {t["name"] for t in targets}
  visited = {k: v for k, v in visited.items() if k in current_names}
  for t in targets:
      if t["name"] not in visited:
          visited[t["name"]] = False
  \<close>
\<close>

fun add_missing :: "('a target_scheme) list \<Rightarrow> bool dict \<Rightarrow> bool dict" where
  "add_missing [] vis = vis"
| "add_missing (t # ts) vis =
     add_missing ts (if \<not> dict_contains vis (name t) then dict_set vis (name t) False else vis)"

definition sync_visited :: "('a target_scheme) list \<Rightarrow> bool dict \<Rightarrow> bool dict" where
  "sync_visited targets vis =
     (let current_names = set (map name targets)
      in add_missing targets (filter (\<lambda>(k, v). k \<in> current_names) vis))"

text \<open>
  The next expected target:
  \<^verbatim>\<open>
  order_active = 0
  for t in sorted(targets, key=lambda x: x["order"]):
      if not visited.get(t["name"], False):
          order_active = t["order"]
          break
  \<close>
\<close>

fun first_unvisited :: "('a otarget_scheme) list \<Rightarrow> bool dict \<Rightarrow> int" where
  "first_unvisited [] vis = 0"
| "first_unvisited (t # ts) vis =
     (if \<not> dict_get vis (name t) False then order t else first_unvisited ts vis)"

definition order_active_of :: "('a otarget_scheme) list \<Rightarrow> bool dict \<Rightarrow> int" where
  "order_active_of targets vis = first_unvisited (sort_key order targets) vis"

text \<open>
  \<^verbatim>\<open>draw_connection_lines\<close> joins the targets in their order by dashed lines. The dashes
  are pixels; what is kept is the arithmetic that decides them: consecutive targets
  closer than one pixel are skipped, and otherwise the direction is the coordinate
  difference divided by the distance.
  \<^verbatim>\<open>
  length = dist(p1, p2)
  if length < 1:
      continue
  dx, dy = (p2[0] - p1[0]) / length, (p2[1] - p1[1]) / length
  \<close>
\<close>

fun dash_segments :: "pt list \<Rightarrow> error + unit" where
  "dash_segments (p1 # p2 # ps) =
     (let len = dist_pts p1 p2 in
      if len < 1 then dash_segments (p2 # ps)
      else (case py_truediv (real_of_int (fst p2 - fst p1)) len of Inl e \<Rightarrow> Inl e | Inr dx \<Rightarrow>
           (case py_truediv (real_of_int (snd p2 - snd p1)) len of Inl e \<Rightarrow> Inl e | Inr dy \<Rightarrow>
              dash_segments (p2 # ps))))"
| "dash_segments ps = Inr ()"

definition draw_connection_lines :: "('a otarget_scheme) list \<Rightarrow> error + unit" where
  "draw_connection_lines targets = dash_segments (map pos (sort_key order targets))"

text \<open>
  The hand centres: landmark 9 of every detected hand, in detection order.
  \<^verbatim>\<open>
  for hlm in hand_res.hand_landmarks:
      draw_hand(frame, hlm, w, h)
      hc = px(hlm[9], w, h)
      hand_positions.append(hc)
  \<close>
\<close>

fun collect_hand_positions :: "landmark list list \<Rightarrow> int \<Rightarrow> int \<Rightarrow> error + pt list" where
  "collect_hand_positions [] w h = Inr []"
| "collect_hand_positions (hlm # rest) w h =
     (case draw_hand hlm w h of Inl e \<Rightarrow> Inl e | Inr _ \<Rightarrow>
     (case py_index hlm 9 of Inl e \<Rightarrow> Inl e | Inr lm9 \<Rightarrow>
     (case collect_hand_positions rest w h of Inl e \<Rightarrow> Inl e | Inr hps \<Rightarrow>
        Inr (px lm9 w h # hps))))"

text \<open>
  The alignment check of one target, with the radius of the file at hand:
  \<^verbatim>\<open>
  aligned = False
  for hp in hand_positions:
      if dist(hp, t["pos"]) < ALIGNMENT_RADIUS:
          aligned = True
          visited[t["name"]] = True
          break
  \<close>
\<close>

fun check_hands :: "int \<Rightarrow> pt list \<Rightarrow> 'a target_scheme \<Rightarrow> bool dict \<Rightarrow> bool \<times> bool dict" where
  "check_hands radius [] t vis = (False, vis)"
| "check_hands radius (hp # hps) t vis =
     (if dist_pts hp (pos t) < real_of_int radius then (True, dict_set vis (name t) True)
      else check_hands radius hps t vis)"

text \<open>
  What the frame shows of one target: the target, its \<^verbatim>\<open>aligned\<close> flag of this frame and
  the \<^verbatim>\<open>visited.get(t["name"], False)\<close> handed to the drawing routine.
\<close>

record 'a drawn =
  d_target :: 'a
  aligned_this_frame :: bool
  visited_flag :: bool

text \<open>The loop \<^verbatim>\<open>for t in targets:\<close> around the alignment check.\<close>

fun align_targets ::
  "int \<Rightarrow> pt list \<Rightarrow> ('a target_scheme) list \<Rightarrow> bool dict \<Rightarrow>
   ('a target_scheme) drawn list \<times> bool dict" where
  "align_targets radius hps [] vis = ([], vis)"
| "align_targets radius hps (t # ts) vis =
     (let (aligned, vis1) = check_hands radius hps t vis;
          d = \<lparr>d_target = t, aligned_this_frame = aligned,
               visited_flag = dict_get vis1 (name t) False\<rparr>;
          (ds, vis2) = align_targets radius hps ts vis1
      in (d # ds, vis2))"

text \<open>\<^verbatim>\<open>all_done = all(visited.values()) if visited else False\<close>\<close>

definition all_done_of :: "bool dict \<Rightarrow> bool" where
  "all_done_of vis = (if vis \<noteq> [] then list_all snd vis else False)"

section \<open>The streaming server\<close>

text \<open>
  What a published JPEG shows, as far as the tracker decides it: the "Initializing..."
  prompt, the "Step into frame" prompt, or the targets with their flags, the ordinal of
  the next expected target and the all-done banner.
\<close>

datatype frame_content =
  Initializing
| StepIntoFrame
| Annotated "otarget drawn list" int bool

text \<open>
  \<^verbatim>\<open>class TrackerState\<close>. The lock is the atomicity of the functions below that run under
  it. \<^verbatim>\<open>frame_event\<close> is set and cleared at once on every publication; the model counts
  the publications.
\<close>

record TrackerState =
  mode :: string
  visited :: "bool dict"
  reset_requested :: bool
  running :: bool
  jpeg_frame :: "frame_content option"
  frame_event_sets :: nat

definition init_state :: TrackerState where
  "init_state =
     \<lparr>mode = ''heart'', visited = [], reset_requested = False, running = True,
      jpeg_frame = None, frame_event_sets = 0\<rparr>"

definition ALIGNMENT_RADIUS :: int where
  "ALIGNMENT_RADIUS = 48"

text \<open>
  The variables of \<^verbatim>\<open>processing_loop\<close> that live across iterations, and what one
  iteration gets from the camera and, when it asks, from the two detectors.
\<close>

record loop_vars =
  frame_idx :: int
  last_pose_res :: "landmark list list option"
  last_hand_res :: "landmark list list option"

record capture =
  ret :: bool
  frame_w :: int
  frame_h :: int
  pose_landmarks :: "landmark list list"
  hand_landmarks :: "landmark list list"

definition init_vars :: loop_vars where
  "init_vars = \<lparr>frame_idx = 0, last_pose_res = None, last_hand_res = None\<rparr>"

text \<open>
  \<^verbatim>\<open>
  with state.lock:
      state.jpeg_frame = buf.tobytes()
  state.frame_event.set()
  state.frame_event.clear()
  \<close>
\<close>

definition publish :: "frame_content \<Rightarrow> TrackerState \<Rightarrow> TrackerState" where
  "publish f s = s\<lparr>jpeg_frame := Some f, frame_event_sets := frame_event_sets s + 1\<rparr>"

text \<open>
  The first locked block of an iteration:
  \<^verbatim>\<open>
  with state.lock:
      current_mode = state.mode
      if state.reset_requested:
          state.visited = {}
          state.reset_requested = False
      visited = dict(state.visited)
  \<close>
\<close>

definition apply_reset :: "TrackerState \<Rightarrow> TrackerState" where
  "apply_reset s =
     (if reset_requested s then s\<lparr>visited := [], reset_requested := False\<rparr> else s)"

definition take_snapshot :: "TrackerState \<Rightarrow> string \<times> bool dict \<times> TrackerState" where
  "take_snapshot s =
     (let current_mode = mode s;
          s1 = apply_reset s
      in (current_mode, visited s1, s1))"

text \<open>
  The second locked block, at the end of a frame with a pose:
  \<^verbatim>\<open>
  with state.lock:
      state.visited = dict(visited)
  \<close>
\<close>

definition write_back :: "bool dict \<Rightarrow> TrackerState \<Rightarrow> TrackerState" where
  "write_back vis s = s\<lparr>visited := vis\<rparr>"

text \<open>
  The branch of an iteration for a detected pose, up to the dict it writes back and the
  frame it draws. The targets are those of the mode read under the lock; the hand
  centres are collected when \<^verbatim>\<open>hand_res and hand_res.hand_landmarks\<close> holds.
\<close>

definition compute_targets ::
  "bool \<Rightarrow> landmark list \<Rightarrow> int \<Rightarrow> int \<Rightarrow> error + (otarget list \<times> anchors)" where
  "compute_targets is_heart plm w h =
     (if is_heart then compute_cardiac_points plm w h else compute_lung_points plm w h)"

definition hand_positions_of ::
  "landmark list list option \<Rightarrow> int \<Rightarrow> int \<Rightarrow> error + pt list" where
  "hand_positions_of hand_res w h =
     (case hand_res of None \<Rightarrow> Inr [] | Some hl \<Rightarrow> collect_hand_positions hl w h)"

definition track_pose ::
  "string \<Rightarrow> bool dict \<Rightarrow> landmark list \<Rightarrow> landmark list list option \<Rightarrow> int \<Rightarrow> int \<Rightarrow>
   error + (bool dict \<times> frame_content)" where
  "track_pose current_mode vis plm hand_res w h =
     (let is_heart = (current_mode = ''heart'') in
      case draw_skeleton plm w h of Inl e \<Rightarrow> Inl e | Inr _ \<Rightarrow>
     (case compute_targets is_heart plm w h of
        Inl e \<Rightarrow> Inl e
      | Inr (targets, anchors) \<Rightarrow>
          let vis1 = sync_visited targets vis;
              order_active = order_active_of targets vis1
          in (case (if is_heart then draw_connection_lines targets else Inr ()) of
                Inl e \<Rightarrow> Inl e
              | Inr _ \<Rightarrow>
             (case hand_positions_of hand_res w h of
                Inl e \<Rightarrow> Inl e
              | Inr hand_positions \<Rightarrow>
                  let (ds, vis2) = align_targets ALIGNMENT_RADIUS hand_positions targets vis1
                  in Inr (vis2, Annotated ds order_active (all_done_of vis2))))))"

text \<open>
  The head of an iteration after a successful read: the frame is counted, and on every
  second frame the two detectors run and their results replace the kept ones.
  \<^verbatim>\<open>
  frame_idx += 1
  if frame_idx % 2 == 0:
      ...
      last_pose_res = pose_lm.detect_for_video(mp_image, ts)
      last_hand_res = hand_lm.detect_for_video(mp_image, ts)
  \<close>
\<close>

definition detect :: "capture \<Rightarrow> loop_vars \<Rightarrow> loop_vars" where
  "detect c l =
     (let l1 = l\<lparr>frame_idx := frame_idx l + 1\<rparr>
      in if frame_idx l1 mod 2 = 0
         then l1\<lparr>last_pose_res := Some (pose_landmarks c),
                 last_hand_res := Some (hand_landmarks c)\<rparr>
         else l1)"

text \<open>
  One iteration of \<^verbatim>\<open>while state.running:\<close>. A failed read sleeps and continues.
  Without any detector result yet the "Initializing..." frame is published and the
  iteration ends before the locked block. Otherwise the mode and the dict are read under
  the lock, and the frame is the tracked pose or the "Step into frame" prompt.
\<close>

definition loop_body :: "capture \<Rightarrow> loop_vars \<times> TrackerState \<Rightarrow> error + (loop_vars \<times> TrackerState)" where
  "loop_body c ls =
     (let (l, s) = ls in
      if \<not> ret c then Inr (l, s)
      else
        let l2 = detect c l
        in case last_pose_res l2 of
             None \<Rightarrow> Inr (l2, publish Initializing s)
           | Some pose_res \<Rightarrow>
               let (current_mode, vis, s1) = take_snapshot s
               in (case pose_res of
                     [] \<Rightarrow> Inr (l2, publish StepIntoFrame s1)
                   | plm # _ \<Rightarrow>
                      (case track_pose current_mode vis plm (last_hand_res l2) (frame_w c) (frame_h c) of
                         Inl e \<Rightarrow> Inl e
                       | Inr (vis2, content) \<Rightarrow> Inr (l2, publish content (write_back vis2 s1)))))"

text \<open>The loop, over the frames the camera delivers while it runs.\<close>

fun processing_loop ::
  "capture list \<Rightarrow> loop_vars \<times> TrackerState \<Rightarrow> error + (loop_vars \<times> TrackerState)" where
  "processing_loop [] ls = Inr ls"
| "processing_loop (c # cs) ls =
     (if \<not> running (snd ls) then Inr ls
      else case loop_body c ls of Inl e \<Rightarrow> Inl e | Inr ls' \<Rightarrow> processing_loop cs ls')"

subsection \<open>Routes\<close>

text \<open>
  \<^verbatim>\<open>/feed\<close>: the argument is \<^verbatim>\<open>request.args.get('mode', 'heart')\<close>, absent or a string.
  The response streams the shared frame and changes no state.
  \<^verbatim>\<open>
  mode = request.args.get('mode', 'heart').lower()
  if mode not in ('heart', 'lung'):
      mode = 'heart'
  with state.lock:
      if state.mode != mode:
          state.mode = mode
          state.visited = {}
  \<close>
\<close>

definition requested_mode :: "string option \<Rightarrow> string" where
  "requested_mode arg =
     (let m = str_lower (case arg of None \<Rightarrow> ''heart'' | Some a \<Rightarrow> a)
      in if m \<notin> {''heart'', ''lung''} then ''heart'' else m)"

definition feed :: "string option \<Rightarrow> TrackerState \<Rightarrow> TrackerState" where
  "feed arg s =
     (let m = requested_mode arg
      in if mode s \<noteq> m then s\<lparr>mode := m, visited := []\<rparr> else s)"

text \<open>\<^verbatim>\<open>round(x, 1)\<close>: to one decimal, ties to the even digit.\<close>

definition py_round1 :: "real \<Rightarrow> real" where
  "py_round1 v =
     (let t = v * 10; f = \<lfloor>t\<rfloor>; r = t - real_of_int f
      in real_of_int (if r < 1 / 2 then f else if 1 / 2 < r then f + 1
                      else if even f then f else f + 1) / 10)"

record status_json =
  st_mode :: string
  st_visited :: "bool dict"
  st_total :: int
  st_done :: int
  st_progress :: real
  st_allDone :: bool

text \<open>
  \<^verbatim>\<open>/status\<close>
  \<^verbatim>\<open>
  total = len(visited) if visited else 0
  done = sum(1 for v in visited.values() if v)
  progress = (done / total * 100) if total > 0 else 0
  \<close>
  and the response holds \<^verbatim>\<open>round(progress, 1)\<close> and \<^verbatim>\<open>total > 0 and done == total\<close>.
\<close>

definition tracker_status :: "TrackerState \<Rightarrow> status_json" where
  "tracker_status s =
     (let vis = visited s;
          m = mode s;
          total = (if vis \<noteq> [] then int (length vis) else 0);
          dn = int (length (filter (\<lambda>v. v) (map snd vis)));
          progress = (if total > 0 then real_of_int dn / real_of_int total * 100 else 0)
      in \<lparr>st_mode = m, st_visited = vis, st_total = total, st_done = dn,
          st_progress = py_round1 progress, st_allDone = (total > 0 \<and> dn = total)\<rparr>)"

text \<open>\<^verbatim>\<open>/reset\<close>\<close>

definition reset_tracker :: "TrackerState \<Rightarrow> TrackerState" where
  "reset_tracker s = s\<lparr>reset_requested := True\<rparr>"

section \<open>The standalone lung and heart tracker\<close>

text \<open>
  \<^verbatim>\<open>hand_lung_tracker.py\<close>. Its targets carry a \<^verbatim>\<open>"side"\<close> instead of an order, its cardiac
  fractions differ from the server's, and its radius is 50.
\<close>

record starget = target +
  side :: string

definition hl_compute_lung_points ::
  "landmark list \<Rightarrow> int \<Rightarrow> int \<Rightarrow> error + (starget list \<times> anchors)" where
  "hl_compute_lung_points plm w h =
     (case get_body_anchors plm w h of
        Inl e \<Rightarrow> Inl e
      | Inr (ls, rs, lh, rh) \<Rightarrow>
          let torso_h = py_int (real_of_int ((snd lh - snd ls) + (snd rh - snd rs)) / 2);
              mid_x = (fst ls + fst rs) div 2;
              top_y = (snd ls + snd rs) div 2;
              mcl = py_int (real_of_int \<bar>fst rs - fst ls\<bar> * 0.32);
              stb = py_int (real_of_int \<bar>fst rs - fst ls\<bar> * 0.12)
          in Inr ([\<lparr>name = ''R Apex'', pos = (mid_x - mcl, top_y + py_int (real_of_int torso_h * 0.03)), side = ''R''\<rparr>,
                   \<lparr>name = ''L Apex'', pos = (mid_x + mcl, top_y + py_int (real_of_int torso_h * 0.03)), side = ''L''\<rparr>,
                   \<lparr>name = ''R Upper'', pos = (mid_x - mcl, top_y + py_int (real_of_int torso_h * 0.14)), side = ''R''\<rparr>,
                   \<lparr>name = ''L Upper'', pos = (mid_x + mcl, top_y + py_int (real_of_int torso_h * 0.14)), side = ''L''\<rparr>,
                   \<lparr>name = ''R Middle'', pos = (mid_x - mcl, top_y + py_int (real_of_int torso_h * 0.32)), side = ''R''\<rparr>,
                   \<lparr>name = ''R Lower'', pos = (mid_x - mcl, top_y + py_int (real_of_int torso_h * 0.50)), side = ''R''\<rparr>,
                   \<lparr>name = ''L Lower'', pos = (mid_x + mcl, top_y + py_int (real_of_int torso_h * 0.50)), side = ''L''\<rparr>],
                  (ls, rs, lh, rh)))"

definition hl_compute_cardiac_points ::
  "landmark list \<Rightarrow> int \<Rightarrow> int \<Rightarrow> error + (starget list \<times> anchors)" where
  "hl_compute_cardiac_points plm w h =
     (case get_body_anchors plm w h of
        Inl e \<Rightarrow> Inl e
      | Inr (ls, rs, lh, rh) \<Rightarrow>
          let torso_h = py_int (real_of_int ((snd lh - snd ls) + (snd rh - snd rs)) / 2);
              mid_x = (fst ls + fst rs) div 2;
              top_y = (snd ls + snd rs) div 2;
              mcl = py_int (real_of_int \<bar>fst rs - fst ls\<bar> * 0.32);
              stb = py_int (real_of_int \<bar>fst rs - fst ls\<bar> * 0.12)
          in Inr ([\<lparr>name = ''Aortic'', pos = (mid_x - stb, top_y + py_int (real_of_int torso_h * 0.12)), side = ''R''\<rparr>,
                   \<lparr>name = ''Pulmonic'', pos = (mid_x + stb, top_y + py_int (real_of_int torso_h * 0.12)), side = ''L''\<rparr>,
                   \<lparr>name = ''Erb's Pt'', pos = (mid_x + stb, top_y + py_int (real_of_int torso_h * 0.22)), side = ''L''\<rparr>,
                   \<lparr>name = ''Tricuspid'', pos = (mid_x + stb, top_y + py_int (real_of_int torso_h * 0.32)), side = ''L''\<rparr>,
                   \<lparr>name = ''Mitral'', pos = (mid_x + mcl, top_y + py_int (real_of_int torso_h * 0.40)), side = ''L''\<rparr>],
                  (ls, rs, lh, rh)))"

definition HL_ALIGNMENT_RADIUS :: int where
  "HL_ALIGNMENT_RADIUS = 50"

text \<open>
  What a shown frame holds, the variables of \<^verbatim>\<open>main\<close> that live across iterations, and
  what an iteration gets: the capture and \<^verbatim>\<open>cv2.waitKey(1) & 0xFF\<close>.
\<close>

datatype hl_content =
  HL_StepIntoFrame
| HL_Annotated "starget drawn list" bool

record hl_vars =
  hl_mode :: string
  hl_visited :: "bool dict"

record key_capture = capture +
  key :: int

definition hl_init :: hl_vars where
  "hl_init = \<lparr>hl_mode = ''lung'', hl_visited = []\<rparr>"

text \<open>
  An iteration of a standalone loop ends the loop on a failed read, or shows a frame
  and then obeys the key; the flag tells whether the loop goes on.
\<close>

datatype ('c, 'v) iteration = ReadFailed | Shown 'c 'v bool

definition hl_compute_targets ::
  "string \<Rightarrow> landmark list \<Rightarrow> int \<Rightarrow> int \<Rightarrow> error + (starget list \<times> anchors)" where
  "hl_compute_targets md plm w h =
     (if md = ''lung'' then hl_compute_lung_points plm w h else hl_compute_cardiac_points plm w h)"

definition hl_track_pose ::
  "string \<Rightarrow> bool dict \<Rightarrow> landmark list \<Rightarrow> landmark list list \<Rightarrow> int \<Rightarrow> int \<Rightarrow>
   error + (bool dict \<times> hl_content)" where
  "hl_track_pose md vis plm hands w h =
     (case draw_skeleton plm w h of Inl e \<Rightarrow> Inl e | Inr _ \<Rightarrow>
     (case hl_compute_targets md plm w h of
        Inl e \<Rightarrow> Inl e
      | Inr (targets, anchors) \<Rightarrow>
          let vis1 = sync_visited targets vis
          in (case collect_hand_positions hands w h of
                Inl e \<Rightarrow> Inl e
              | Inr hand_positions \<Rightarrow>
                  let (ds, vis2) = align_targets HL_ALIGNMENT_RADIUS hand_positions targets vis1
                  in Inr (vis2, HL_Annotated ds (all_done_of vis2)))))"

text \<open>
  \<^verbatim>\<open>
  if key == ord('q'): break
  elif key == ord('r'): visited = {k: False for k in visited}
  elif key == ord('m'):
      mode = "cardiac" if mode == "lung" else "lung"
      visited = {}
  \<close>
\<close>

definition hl_on_key :: "int \<Rightarrow> hl_content \<Rightarrow> hl_vars \<Rightarrow> (hl_content, hl_vars) iteration" where
  "hl_on_key k content v =
     (if k = 113 then Shown content v False
      else if k = 114 then Shown content (v\<lparr>hl_visited := map (\<lambda>(n, b). (n, False)) (hl_visited v)\<rparr>) True
      else if k = 109 then
        Shown content (v\<lparr>hl_mode := (if hl_mode v = ''lung'' then ''cardiac'' else ''lung''),
                         hl_visited := []\<rparr>) True
      else Shown content v True)"

definition hl_loop_body :: "key_capture \<Rightarrow> hl_vars \<Rightarrow> error + (hl_content, hl_vars) iteration" where
  "hl_loop_body c v =
     (if \<not> ret c then Inr ReadFailed
      else case pose_landmarks c of
             [] \<Rightarrow> Inr (hl_on_key (key c) HL_StepIntoFrame v)
           | plm # _ \<Rightarrow>
              (case hl_track_pose (hl_mode v) (hl_visited v) plm (hand_landmarks c) (frame_w c) (frame_h c) of
                 Inl e \<Rightarrow> Inl e
               | Inr (vis2, content) \<Rightarrow> Inr (hl_on_key (key c) content (v\<lparr>hl_visited := vis2\<rparr>))))"

text \<open>
  \<^verbatim>\<open>heart_tracker.py\<close>. One mode; the targets are the server's cardiac targets with a
  description; the radius is 48; the visited dict is only completed, never filtered.
\<close>

record htarget = otarget +
  desc :: string

definition ht_compute_cardiac_points ::
  "landmark list \<Rightarrow> int \<Rightarrow> int \<Rightarrow> error + (htarget list \<times> anchors)" where
  "ht_compute_cardiac_points plm w h =
     (case py_index plm 11 of Inl e \<Rightarrow> Inl e | Inr l11 \<Rightarrow>
     (case py_index plm 12 of Inl e \<Rightarrow> Inl e | Inr l12 \<Rightarrow>
     (case py_index plm 23 of Inl e \<Rightarrow> Inl e | Inr l23 \<Rightarrow>
     (case py_index plm 24 of Inl e \<Rightarrow> Inl e | Inr l24 \<Rightarrow>
        let ls = px l11 w h; rs = px l12 w h; lh = px l23 w h; rh = px l24 w h;
            torso_h = py_int (real_of_int ((snd lh - snd ls) + (snd rh - snd rs)) / 2);
            mid_x = (fst ls + fst rs) div 2;
            top_y = (snd ls + snd rs) div 2;
            shoulder_w = \<bar>fst rs - fst ls\<bar>;
            stb = py_int (real_of_int shoulder_w * 0.11);
            mcl = py_int (real_of_int shoulder_w * 0.32);
            ics2 = py_int (real_of_int torso_h * 0.12);
            ics3 = py_int (real_of_int torso_h * 0.21);
            ics4 = py_int (real_of_int torso_h * 0.30);
            ics5 = py_int (real_of_int torso_h * 0.39)
        in Inr ([\<lparr>name = ''Aortic'', pos = (mid_x - stb, top_y + ics2), order = 1,
                  desc = ''2nd right intercostal''\<rparr>,
                 \<lparr>name = ''Pulmonic'', pos = (mid_x + stb, top_y + ics2), order = 2,
                  desc = ''2nd left intercostal''\<rparr>,
                 \<lparr>name = ''Erb's Pt'', pos = (mid_x + stb, top_y + ics3), order = 3,
                  desc = ''3rd left intercostal''\<rparr>,
                 \<lparr>name = ''Tricuspid'', pos = (mid_x + stb, top_y + ics4), order = 4,
                  desc = ''4th left intercostal''\<rparr>,
                 \<lparr>name = ''Mitral'', pos = (mid_x + mcl, top_y + ics5), order = 5,
                  desc = ''5th ICS, midclavicular''\<rparr>],
                (ls, rs, lh, rh))))))"

definition HT_ALIGNMENT_RADIUS :: int where
  "HT_ALIGNMENT_RADIUS = 48"

datatype ht_content =
  HT_StepIntoFrame
| HT_Annotated "htarget drawn list" int bool

definition ht_track_pose ::
  "bool dict \<Rightarrow> landmark list \<Rightarrow> landmark list list \<Rightarrow> int \<Rightarrow> int \<Rightarrow>
   error + (bool dict \<times> ht_content)" where
  "ht_track_pose vis plm hands w h =
     (case draw_skeleton plm w h of Inl e \<Rightarrow> Inl e | Inr _ \<Rightarrow>
     (case ht_compute_cardiac_points plm w h of
        Inl e \<Rightarrow> Inl e
      | Inr (targets, anchors) \<Rightarrow>
          let vis1 = add_missing targets vis;
              order_active = order_active_of targets vis1
          in (case draw_connection_lines targets of
                Inl e \<Rightarrow> Inl e
              | Inr _ \<Rightarrow>
             (case collect_hand_positions hands w h of
                Inl e \<Rightarrow> Inl e
              | Inr hand_positions \<Rightarrow>
                  let (ds, vis2) = align_targets HT_ALIGNMENT_RADIUS hand_positions targets vis1
                  in Inr (vis2, HT_Annotated ds order_active (all_done_of vis2))))))"

text \<open>
  \<^verbatim>\<open>
  if key == ord('q'): break
  elif key == ord('r'): visited = {k: False for k in visited}
  \<close>
\<close>

definition ht_on_key :: "int \<Rightarrow> ht_content \<Rightarrow> bool dict \<Rightarrow> (ht_content, bool dict) iteration" where
  "ht_on_key k content vis =
     (if k = 113 then Shown content vis False
      else if k = 114 then Shown content (map (\<lambda>(n, b). (n, False)) vis) True
      else Shown content vis True)"

definition ht_loop_body :: "key_capture \<Rightarrow> bool dict \<Rightarrow> error + (ht_content, bool dict) iteration" where
  "ht_loop_body c vis =
     (if \<not> ret c then Inr ReadFailed
      else case pose_landmarks c of
             [] \<Rightarrow> Inr (ht_on_key (key c) HT_StepIntoFrame vis)
           | plm # _ \<Rightarrow>
              (case ht_track_pose vis plm (hand_landmarks c) (frame_w c) (frame_h c) of
                 Inl e \<Rightarrow> Inl e
               | Inr (vis2, content) \<Rightarrow> Inr (ht_on_key (key c) content vis2)))"

text \<open>
  The loop of \<^verbatim>\<open>main\<close> in \<^verbatim>\<open>heart_tracker.py\<close>, over the frames the camera delivers:
  it ends on a failed read and on \<^verbatim>\<open>q\<close>. The result is the visited dict when it ends.
\<close>

fun ht_main_loop :: "key_capture list \<Rightarrow> bool dict \<Rightarrow> error + bool dict" where
  "ht_main_loop [] vis = Inr vis"
| "ht_main_loop (c # cs) vis =
     (case ht_loop_body c vis of
        Inl e \<Rightarrow> Inl e
      | Inr ReadFailed \<Rightarrow> Inr vis
      | Inr (Shown content vis' go) \<Rightarrow> (if go then ht_main_loop cs vis' else Inr vis'))"

section \<open>What the detectors deliver\<close>

text \<open>
  The detectors are outside the repository. By the data model of the specification a
  pose is a sequence of at least 33 landmarks and a hand one of 21; the properties below
  that run whole frames assume it of every detector result.
\<close>

definition wf_pose_res :: "landmark list list \<Rightarrow> bool" where
  "wf_pose_res ps = list_all (\<lambda>plm. 33 \<le> length plm) ps"

definition wf_hand_res :: "landmark list list \<Rightarrow> bool" where
  "wf_hand_res hs = list_all (\<lambda>hlm. length hlm = 21) hs"

definition wf_capture :: "'a capture_scheme \<Rightarrow> bool" where
  "wf_capture c = (wf_pose_res (pose_landmarks c) \<and> wf_hand_res (hand_landmarks c))"

definition wf_vars :: "loop_vars \<Rightarrow> bool" where
  "wf_vars l =
     ((case last_pose_res l of None \<Rightarrow> True | Some ps \<Rightarrow> wf_pose_res ps) \<and>
      (case last_hand_res l of None \<Rightarrow> True | Some hs \<Rightarrow> wf_hand_res hs))"

text \<open>
  The \<^verbatim>\<open>"name"\<close> entries of the two literal target lists, in list order; the pose has no
  part in them.
\<close>

definition target_names :: "bool \<Rightarrow> string list" where
  "target_names is_heart =
     (if is_heart then [''Aortic'', ''Pulmonic'', ''Erb's Pt'', ''Tricuspid'', ''Mitral'']
      else [''R Apex'', ''L Apex'', ''R Upper'', ''L Upper'', ''R Middle'', ''R Lower'', ''L Lower''])"

text \<open>
  Detector results for the examples: a pose of 33 landmarks with the two shoulders
  (11, 12) and the two hips (23, 24) where given and every other landmark at the origin,
  and a hand of 21 landmarks with its palm centre (9) where given.
\<close>

definition origin_lm :: landmark where
  "origin_lm = \<lparr>lm_x = 0, lm_y = 0\<rparr>"

definition pose_at :: "landmark \<Rightarrow> landmark \<Rightarrow> landmark \<Rightarrow> landmark \<Rightarrow> landmark list" where
  "pose_at l_sh r_sh l_hip r_hip =
     replicate 11 origin_lm @ [l_sh, r_sh] @ replicate 10 origin_lm @ [l_hip, r_hip]
       @ replicate 8 origin_lm"

definition hand_at :: "landmark \<Rightarrow> landmark list" where
  "hand_at palm = replicate 9 origin_lm @ [palm] @ replicate 11 origin_lm"

text \<open>
  A pose facing the camera (shoulders 128 pixels apart at 640 by 480) and a pose seen from
  the side, with both shoulders and both hips on one vertical line.
\<close>

definition facing_pose :: "landmark list" where
  "facing_pose =
     pose_at \<lparr>lm_x = 0.6, lm_y = 0.25\<rparr> \<lparr>lm_x = 0.4, lm_y = 0.25\<rparr>
             \<lparr>lm_x = 0.6, lm_y = 0.75\<rparr> \<lparr>lm_x = 0.4, lm_y = 0.75\<rparr>"

definition sideways_pose :: "landmark list" where
  "sideways_pose =
     pose_at \<lparr>lm_x = 0.5, lm_y = 0.25\<rparr> \<lparr>lm_x = 0.5, lm_y = 0.25\<rparr>
             \<lparr>lm_x = 0.5, lm_y = 0.75\<rparr> \<lparr>lm_x = 0.5, lm_y = 0.75\<rparr>"

text \<open>
  A pose with the shoulders 5 pixels apart, a palm that lands on pixel (270, 148), which
  is 36 pixels from the Aortic target of the facing pose and more than 48 from its other
  targets, captures of 640 by 480 that deliver them, and the loop variables after one
  frame, so that the next frame runs the detectors.
\<close>

definition narrow_pose :: "landmark list" where
  "narrow_pose =
     pose_at \<lparr>lm_x = 325 / 640, lm_y = 0.25\<rparr> \<lparr>lm_x = 0.5, lm_y = 0.25\<rparr>
             \<lparr>lm_x = 325 / 640, lm_y = 0.75\<rparr> \<lparr>lm_x = 0.5, lm_y = 0.75\<rparr>"

definition palm_near_aortic :: landmark where
  "palm_near_aortic = \<lparr>lm_x = 270 / 640, lm_y = 148 / 480\<rparr>"

definition capture_of :: "landmark list list \<Rightarrow> landmark list list \<Rightarrow> capture" where
  "capture_of ps hs =
     \<lparr>ret = True, frame_w = 640, frame_h = 480, pose_landmarks = ps, hand_landmarks = hs\<rparr>"

definition second_frame :: loop_vars where
  "second_frame = \<lparr>frame_idx = 1, last_pose_res = None, last_hand_res = None\<rparr>"

section \<open>Properties\<close>

subsection \<open>Distance and the alignment loop\<close>

lemma dist_pts_less_iff:
  assumes "0 \<le> r"
  shows "dist_pts a b < real_of_int r \<longleftrightarrow> (fst a - fst b)\<^sup>2 + (snd a - snd b)\<^sup>2 < r\<^sup>2"
proof -
  let ?s = "(real_of_int (fst a - fst b))\<^sup>2 + (real_of_int (snd a - snd b))\<^sup>2"
  have "sqrt ?s < real_of_int r \<longleftrightarrow> ?s < (real_of_int r)\<^sup>2"
    using assms by (metis of_int_0_le_iff real_sqrt_less_iff real_sqrt_abs abs_of_nonneg)
  also have "\<dots> \<longleftrightarrow> (fst a - fst b)\<^sup>2 + (snd a - snd b)\<^sup>2 < r\<^sup>2"
    by (metis of_int_add of_int_less_iff of_int_power)
  finally show ?thesis by (simp add: dist_pts_def)
qed

lemma dist_pts_less_numeral:
  "dist_pts a b < numeral n \<longleftrightarrow> (fst a - fst b)\<^sup>2 + (snd a - snd b)\<^sup>2 < (numeral n)\<^sup>2"
  using dist_pts_less_iff [of "numeral n" a b] by simp

lemma check_hands_fst:
  "fst (check_hands radius hps t vis) \<longleftrightarrow>
     (\<exists>hp \<in> set hps. dist_pts hp (pos t) < real_of_int radius)"
  by (induction hps) auto

lemma check_hands_snd:
  "snd (check_hands radius hps t vis) =
     (if fst (check_hands radius hps t vis) then dict_set vis (name t) True else vis)"
  by (induction hps) auto

lemma align_targets_Cons:
  "align_targets radius hps (t # ts) vis =
     (\<lparr>d_target = t, aligned_this_frame = fst (check_hands radius hps t vis),
       visited_flag = dict_get (snd (check_hands radius hps t vis)) (name t) False\<rparr>
        # fst (align_targets radius hps ts (snd (check_hands radius hps t vis))),
      snd (align_targets radius hps ts (snd (check_hands radius hps t vis))))"
  by (simp split: prod.splits)

lemma align_targets_flags:
  "map aligned_this_frame (fst (align_targets radius hps ts vis)) =
     map (\<lambda>t. \<exists>hp \<in> set hps. dist_pts hp (pos t) < real_of_int radius) ts"
proof (induction ts arbitrary: vis)
  case Nil
  show ?case by simp
next
  case (Cons t ts)
  show ?case
    unfolding align_targets_Cons by (simp add: check_hands_fst Cons.IH)
qed

lemma align_targets_targets:
  "map d_target (fst (align_targets radius hps ts vis)) = ts"
proof (induction ts arbitrary: vis)
  case Nil
  show ?case by simp
next
  case (Cons t ts)
  show ?case
    unfolding align_targets_Cons by (simp add: Cons.IH)
qed

text \<open>
  Claim C1. In every frame, whatever the targets, the hand centres and the visited dict,
  the frame shows the targets in their order, and the \<open>aligned\<close> flag of each target is
  true exactly when some hand centre is at a Euclidean distance strictly below the
  alignment radius from the target's position. With the server's radius 48, a hand at
  (500,500) aligns a target at (520,500), and a hand at (600,500) does not.
\<close>

theorem aligned_iff_hand_within_radius:
  "map d_target (fst (align_targets radius hps ts vis)) = ts
   \<and> map aligned_this_frame (fst (align_targets radius hps ts vis)) =
       map (\<lambda>t. \<exists>hp \<in> set hps. dist_pts hp (pos t) < real_of_int radius) ts
   \<and> fst (check_hands ALIGNMENT_RADIUS [(500, 500)] (t\<lparr>pos := (520, 500)\<rparr>) vis)
   \<and> \<not> fst (check_hands ALIGNMENT_RADIUS [(600, 500)] (t\<lparr>pos := (520, 500)\<rparr>) vis)"
proof -
  have near: "dist_pts (500, 500) (520, 500) < 48"
    by (simp add: dist_pts_less_numeral)
  have far: "\<not> dist_pts (600, 500) (520, 500) < 48"
    by (simp add: dist_pts_less_numeral)
  show ?thesis
    using near far
    by (simp add: align_targets_flags align_targets_targets ALIGNMENT_RADIUS_def)
qed

theorem aligned_iff_hand_within_radius_witness:
  "map aligned_this_frame
     (fst (align_targets ALIGNMENT_RADIUS [(500, 500), (600, 500)]
        [\<lparr>name = ''Aortic'', pos = (520, 500), order = 1\<rparr>,
         \<lparr>name = ''Pulmonic'', pos = (560, 460), order = 2\<rparr>,
         \<lparr>name = ''Mitral'', pos = (640, 520), order = 5\<rparr>] [])) = [True, False, True]"
proof -
  have d: "dist_pts (500, 500) (520, 500) < 48"
      "\<not> dist_pts (500, 500) (560, 460) < 48"
      "\<not> dist_pts (600, 500) (560, 460) < 48"
      "\<not> dist_pts (500, 500) (640, 520) < 48"
      "dist_pts (600, 500) (640, 520) < 48"
    by (simp_all add: dist_pts_less_numeral)
  show ?thesis
    using d aligned_iff_hand_within_radius
      [of ALIGNMENT_RADIUS "[(500, 500), (600, 500)]"
          "[\<lparr>name = ''Aortic'', pos = (520, 500), order = 1\<rparr>,
            \<lparr>name = ''Pulmonic'', pos = (560, 460), order = 2\<rparr>,
            \<lparr>name = ''Mitral'', pos = (640, 520), order = 5\<rparr>]" "[]"]
    by (simp add: ALIGNMENT_RADIUS_def)
qed

subsection \<open>Dicts, targets and whole frames\<close>

lemma map_of_dict_set: "map_of (dict_set d k v) = (map_of d)(k \<mapsto> v)"
  by (induction d) (auto simp: fun_eq_iff)

lemma keys_dict_set: "fst ` set (dict_set d k v) = insert k (fst ` set d)"
  by (induction d) auto

lemma distinct_dict_set: "distinct (map fst d) \<Longrightarrow> distinct (map fst (dict_set d k v))"
  by (induction d) (auto simp: keys_dict_set)

lemma length_dict_set:
  "length (dict_set d k v) = (if dict_contains d k then length d else Suc (length d))"
  by (induction d) (auto simp: dict_contains_def)

lemma dict_get_dict_set:
  "dict_get (dict_set d k v) k' dflt = (if k' = k then v else dict_get d k' dflt)"
  by (simp add: dict_get_def map_of_dict_set)

lemma map_of_filter_keys:
  "map_of (filter (\<lambda>(k, v). k \<in> S) d) n = (if n \<in> S then map_of d n else None)"
  by (induction d) auto

lemma map_of_add_missing:
  "map_of (add_missing ts vis) n =
     (case map_of vis n of Some v \<Rightarrow> Some v
      | None \<Rightarrow> if n \<in> set (map name ts) then Some False else None)"
proof (induction ts arbitrary: vis)
  case Nil
  show ?case by (simp split: option.splits)
next
  case (Cons t ts)
  show ?case
    by (auto simp: Cons.IH map_of_dict_set dict_contains_def map_of_eq_None_iff[symmetric]
             split: option.splits)
qed

lemma map_of_sync_visited:
  "map_of (sync_visited ts vis) n =
     (if n \<in> set (map name ts) then Some (dict_get vis n False) else None)"
  by (auto simp: sync_visited_def map_of_add_missing map_of_filter_keys dict_get_def
           split: option.splits)

lemma keys_add_missing:
  "fst ` set (add_missing ts vis) = fst ` set vis \<union> name ` set ts"
  by (induction ts arbitrary: vis) (auto simp: keys_dict_set dict_contains_def)

lemma keys_sync_visited: "fst ` set (sync_visited ts vis) = name ` set ts"
  by (auto simp: sync_visited_def keys_add_missing)

lemma distinct_add_missing:
  "distinct (map fst vis) \<Longrightarrow> distinct (map fst (add_missing ts vis))"
  by (induction ts arbitrary: vis) (auto simp: distinct_dict_set)

lemma distinct_sync_visited:
  "distinct (map fst vis) \<Longrightarrow> distinct (map fst (sync_visited ts vis))"
  by (simp add: sync_visited_def distinct_add_missing distinct_map_filter)

lemma map_of_check_hands:
  "map_of (snd (check_hands radius hps t vis)) =
     (if \<exists>hp \<in> set hps. dist_pts hp (pos t) < real_of_int radius
      then (map_of vis)(name t \<mapsto> True) else map_of vis)"
  by (induction hps) (auto simp: map_of_dict_set)

lemma keys_check_hands:
  "name t \<in> fst ` set vis \<Longrightarrow>
   fst ` set (snd (check_hands radius hps t vis)) = fst ` set vis"
  by (induction hps) (auto simp: keys_dict_set)


lemma map_of_align_targets:
  "map_of (snd (align_targets radius hps ts vis)) n =
     (if \<exists>t \<in> set ts. name t = n \<and> (\<exists>hp \<in> set hps. dist_pts hp (pos t) < real_of_int radius)
      then Some True else map_of vis n)"
proof (induction ts arbitrary: vis)
  case Nil
  show ?case by simp
next
  case (Cons t ts)
  show ?case
    unfolding align_targets_Cons by (auto simp: Cons.IH map_of_check_hands)
qed

lemma keys_align_targets:
  "name ` set ts \<subseteq> fst ` set vis \<Longrightarrow>
   fst ` set (snd (align_targets radius hps ts vis)) = fst ` set vis"
proof (induction ts arbitrary: vis)
  case Nil
  show ?case by simp
next
  case (Cons t ts)
  then show ?case
    unfolding align_targets_Cons by (simp add: keys_check_hands)
qed

lemma distinct_check_hands:
  "distinct (map fst vis) \<Longrightarrow> distinct (map fst (snd (check_hands radius hps t vis)))"
  by (induction hps) (auto simp: distinct_dict_set)

lemma distinct_align_targets:
  "distinct (map fst vis) \<Longrightarrow> distinct (map fst (snd (align_targets radius hps ts vis)))"
proof (induction ts arbitrary: vis)
  case Nil
  then show ?case by simp
next
  case (Cons t ts)
  then show ?case
    unfolding align_targets_Cons by (simp add: distinct_check_hands)
qed

lemma get_body_anchors_Inr:
  "25 \<le> length plm \<Longrightarrow>
   get_body_anchors plm w h =
     Inr (px (plm ! 11) w h, px (plm ! 12) w h, px (plm ! 23) w h, px (plm ! 24) w h)"
  by (simp add: get_body_anchors_def py_index_def)

lemma get_body_anchors_Inl:
  "length plm < 25 \<Longrightarrow> get_body_anchors plm w h = Inl IndexError"
  by (simp add: get_body_anchors_def py_index_def)

lemma compute_cardiac_points_names:
  "compute_cardiac_points plm w h = Inr (ts, a) \<Longrightarrow> map name ts = target_names True"
  by (auto simp: compute_cardiac_points_def target_names_def Let_def split: sum.splits prod.splits)

lemma compute_lung_points_names:
  "compute_lung_points plm w h = Inr (ts, a) \<Longrightarrow> map name ts = target_names False"
  by (auto simp: compute_lung_points_def target_names_def Let_def split: sum.splits prod.splits)

lemma compute_targets_names:
  "compute_targets b plm w h = Inr (ts, a) \<Longrightarrow> map name ts = target_names b"
  by (auto simp: compute_targets_def compute_cardiac_points_names compute_lung_points_names
           split: if_splits)

lemma compute_cardiac_points_total:
  "25 \<le> length plm \<Longrightarrow> \<exists>ts a. compute_cardiac_points plm w h = Inr (ts, a)"
  by (simp add: compute_cardiac_points_def get_body_anchors_Inr Let_def)

lemma compute_lung_points_total:
  "25 \<le> length plm \<Longrightarrow> \<exists>ts a. compute_lung_points plm w h = Inr (ts, a)"
  by (simp add: compute_lung_points_def get_body_anchors_Inr Let_def)

lemma compute_targets_total:
  "25 \<le> length plm \<Longrightarrow> \<exists>ts a. compute_targets b plm w h = Inr (ts, a)"
  using compute_cardiac_points_total [of plm w h] compute_lung_points_total [of plm w h]
  unfolding compute_targets_def by (cases b) simp_all

lemma dash_segments_Inr: "dash_segments ps = Inr ()"
  by (induction ps rule: dash_segments.induct) (auto simp: py_truediv_def Let_def)

lemma draw_connection_lines_Inr: "draw_connection_lines ts = Inr ()"
  by (simp add: draw_connection_lines_def dash_segments_Inr)

lemma collect_hand_positions_total:
  "wf_hand_res hs \<Longrightarrow> collect_hand_positions hs w h = Inr (map (\<lambda>hlm. px (hlm ! 9) w h) hs)"
  by (induction hs) (auto simp: wf_hand_res_def draw_hand_def py_index_def)

lemma hand_positions_of_total:
  "(case hr of None \<Rightarrow> True | Some hs \<Rightarrow> wf_hand_res hs) \<Longrightarrow>
   \<exists>hps. hand_positions_of hr w h = Inr hps"
  by (auto simp: hand_positions_of_def collect_hand_positions_total split: option.splits)

lemma track_pose_Inr:
  assumes "track_pose m vis plm hr w h = Inr (vis2, content)"
  shows "\<exists>ts a hps. compute_targets (m = ''heart'') plm w h = Inr (ts, a)
           \<and> hand_positions_of hr w h = Inr hps
           \<and> vis2 = snd (align_targets ALIGNMENT_RADIUS hps ts (sync_visited ts vis))
           \<and> content = Annotated (fst (align_targets ALIGNMENT_RADIUS hps ts (sync_visited ts vis)))
                 (order_active_of ts (sync_visited ts vis)) (all_done_of vis2)"
  using assms
  by (auto simp: track_pose_def Let_def split: sum.splits prod.splits)

lemma track_pose_total:
  assumes "29 \<le> length plm" and "case hr of None \<Rightarrow> True | Some hs \<Rightarrow> wf_hand_res hs"
  shows "\<exists>vis2 content. track_pose m vis plm hr w h = Inr (vis2, content)"
proof -
  obtain ts a where c: "compute_targets (m = ''heart'') plm w h = Inr (ts, a)"
    using compute_targets_total [of plm] assms(1) by fastforce
  obtain hps where hp: "hand_positions_of hr w h = Inr hps"
    using hand_positions_of_total [OF assms(2)] by blast
  have sk: "draw_skeleton plm w h = Inr ()"
    using assms(1) by (simp add: draw_skeleton_def py_index_def)
  show ?thesis
    by (simp add: track_pose_def Let_def c hp sk draw_connection_lines_Inr split: prod.splits)
qed

subsection \<open>The example detector results\<close>

lemma length_pose_at: "length (pose_at a b c d) = 33"
  by (simp add: pose_at_def)

lemma pose_at_nth:
  "pose_at a b c d ! 11 = a" "pose_at a b c d ! 12 = b"
  "pose_at a b c d ! 23 = c" "pose_at a b c d ! 24 = d"
  by (simp_all add: pose_at_def nth_append)

lemma length_hand_at: "length (hand_at p) = 21"
  by (simp add: hand_at_def)

lemma hand_at_nth: "hand_at p ! 9 = p"
  by (simp add: hand_at_def nth_append)

lemma get_body_anchors_pose_at:
  "get_body_anchors (pose_at a b c d) w h = Inr (px a w h, px b w h, px c w h, px d w h)"
  by (simp add: get_body_anchors_Inr length_pose_at pose_at_nth)

subsection \<open>The anatomical mapper\<close>

lemma ht_compute_cardiac_points_Inr:
  "25 \<le> length plm \<Longrightarrow>
   \<exists>ts a. ht_compute_cardiac_points plm w h = Inr (ts, a) \<and> map name ts = target_names True"
  by (simp add: ht_compute_cardiac_points_def py_index_def Let_def target_names_def)

lemma hl_compute_lung_points_Inr:
  "25 \<le> length plm \<Longrightarrow>
   \<exists>ts a. hl_compute_lung_points plm w h = Inr (ts, a) \<and> map name ts = target_names False"
  by (simp add: hl_compute_lung_points_def get_body_anchors_Inr Let_def target_names_def)

lemma hl_compute_cardiac_points_Inr:
  "25 \<le> length plm \<Longrightarrow>
   \<exists>ts a. hl_compute_cardiac_points plm w h = Inr (ts, a) \<and> map name ts = target_names True"
  by (simp add: hl_compute_cardiac_points_def get_body_anchors_Inr Let_def target_names_def)

lemma compute_targets_Inr:
  "25 \<le> length plm \<Longrightarrow>
   \<exists>ts a. compute_targets b plm w h = Inr (ts, a) \<and> map name ts = target_names b"
  using compute_targets_total [of plm b w h] compute_targets_names by blast

lemma target_names_props:
  "length (target_names b) = (if b then 5 else 7)" "distinct (target_names b)"
  by (simp_all add: target_names_def)

lemma names_count:
  "map name ts = target_names b \<Longrightarrow> length ts = (if b then 5 else 7) \<and> distinct (map name ts)"
  by (metis length_map target_names_props)

text \<open>
  Claim C6. For every pose that has the four anchor landmarks (any landmark list of
  length at least 25, so every pose of 33) and every frame size, each mapper returns
  normally, with exactly 7 targets in lung mode and 5 in cardiac mode, and the names
  in the returned list are pairwise distinct. This holds for the server's two mappers
  and its choice between them, for the heart tracker's mapper and for the two mappers
  of the lung tracker.
\<close>

theorem mapper_count_and_names:
  assumes "25 \<le> length plm"
  shows "(\<exists>ts a. compute_lung_points plm w h = Inr (ts, a)
            \<and> length ts = 7 \<and> distinct (map name ts))
       \<and> (\<exists>ts a. compute_cardiac_points plm w h = Inr (ts, a)
            \<and> length ts = 5 \<and> distinct (map name ts))
       \<and> (\<exists>ts a. compute_targets is_heart plm w h = Inr (ts, a)
            \<and> length ts = (if is_heart then 5 else 7) \<and> distinct (map name ts))
       \<and> (\<exists>ts a. ht_compute_cardiac_points plm w h = Inr (ts, a)
            \<and> length ts = 5 \<and> distinct (map name ts))
       \<and> (\<exists>ts a. hl_compute_lung_points plm w h = Inr (ts, a)
            \<and> length ts = 7 \<and> distinct (map name ts))
       \<and> (\<exists>ts a. hl_compute_cardiac_points plm w h = Inr (ts, a)
            \<and> length ts = 5 \<and> distinct (map name ts))"
proof -
  have 3: "\<exists>ts a. compute_targets b plm w h = Inr (ts, a)
            \<and> length ts = (if b then 5 else 7) \<and> distinct (map name ts)" for b
    using compute_targets_Inr [OF assms, of b w h] names_count [of _ b] by blast
  have 1: "\<exists>ts a. compute_lung_points plm w h = Inr (ts, a) \<and> length ts = 7 \<and> distinct (map name ts)"
    using 3 [of False] by (simp add: compute_targets_def)
  have 2: "\<exists>ts a. compute_cardiac_points plm w h = Inr (ts, a) \<and> length ts = 5 \<and> distinct (map name ts)"
    using 3 [of True] by (simp add: compute_targets_def)
  have 4: "\<exists>ts a. ht_compute_cardiac_points plm w h = Inr (ts, a) \<and> length ts = 5 \<and> distinct (map name ts)"
    using ht_compute_cardiac_points_Inr [OF assms, of w h] names_count [of _ True] by fastforce
  have 5: "\<exists>ts a. hl_compute_lung_points plm w h = Inr (ts, a) \<and> length ts = 7 \<and> distinct (map name ts)"
    using hl_compute_lung_points_Inr [OF assms, of w h] names_count [of _ False] by fastforce
  have 6: "\<exists>ts a. hl_compute_cardiac_points plm w h = Inr (ts, a) \<and> length ts = 5 \<and> distinct (map name ts)"
    using hl_compute_cardiac_points_Inr [OF assms, of w h] names_count [of _ True] by fastforce
  show ?thesis using 1 2 3 [of is_heart] 4 5 6 by blast
qed

theorem mapper_count_and_names_witness:
  "(\<exists>ts a. compute_lung_points facing_pose 640 480 = Inr (ts, a)
      \<and> length ts = 7 \<and> distinct (map name ts))
   \<and> (\<exists>ts a. compute_cardiac_points facing_pose 640 480 = Inr (ts, a)
      \<and> length ts = 5 \<and> distinct (map name ts))"
  using mapper_count_and_names [of facing_pose 640 480 True]
  by (simp add: facing_pose_def length_pose_at)

subsection \<open>Degenerate poses, and the mode selector\<close>

lemma track_pose_facing:
  "track_pose ''heart'' [] facing_pose None 640 480 =
     Inr ([(''Aortic'', False), (''Pulmonic'', False), (''Erb's Pt'', False),
           (''Tricuspid'', False), (''Mitral'', False)],
          Annotated
            [\<lparr>d_target = \<lparr>name = ''Aortic'', pos = (306, 148), order = 1\<rparr>,
               aligned_this_frame = False, visited_flag = False\<rparr>,
             \<lparr>d_target = \<lparr>name = ''Pulmonic'', pos = (334, 148), order = 2\<rparr>,
               aligned_this_frame = False, visited_flag = False\<rparr>,
             \<lparr>d_target = \<lparr>name = ''Erb's Pt'', pos = (334, 170), order = 3\<rparr>,
               aligned_this_frame = False, visited_flag = False\<rparr>,
             \<lparr>d_target = \<lparr>name = ''Tricuspid'', pos = (334, 192), order = 4\<rparr>,
               aligned_this_frame = False, visited_flag = False\<rparr>,
             \<lparr>d_target = \<lparr>name = ''Mitral'', pos = (360, 213), order = 5\<rparr>,
               aligned_this_frame = False, visited_flag = False\<rparr>] 1 False)"
  by (simp add: facing_pose_def track_pose_def compute_targets_def draw_skeleton_def py_index_def
     length_pose_at draw_connection_lines_Inr hand_positions_of_def
     compute_cardiac_points_def get_body_anchors_pose_at px_def py_int_def Let_def
     sync_visited_def dict_contains_def order_active_of_def dict_get_def all_done_of_def)

lemma track_pose_sideways:
  "track_pose ''heart''
     [(''Aortic'', False), (''Pulmonic'', False), (''Erb's Pt'', False),
      (''Tricuspid'', False), (''Mitral'', False)] sideways_pose None 640 480 =
     Inr ([(''Aortic'', False), (''Pulmonic'', False), (''Erb's Pt'', False),
           (''Tricuspid'', False), (''Mitral'', False)],
          Annotated
            [\<lparr>d_target = \<lparr>name = ''Aortic'', pos = (320, 148), order = 1\<rparr>,
               aligned_this_frame = False, visited_flag = False\<rparr>,
             \<lparr>d_target = \<lparr>name = ''Pulmonic'', pos = (320, 148), order = 2\<rparr>,
               aligned_this_frame = False, visited_flag = False\<rparr>,
             \<lparr>d_target = \<lparr>name = ''Erb's Pt'', pos = (320, 170), order = 3\<rparr>,
               aligned_this_frame = False, visited_flag = False\<rparr>,
             \<lparr>d_target = \<lparr>name = ''Tricuspid'', pos = (320, 192), order = 4\<rparr>,
               aligned_this_frame = False, visited_flag = False\<rparr>,
             \<lparr>d_target = \<lparr>name = ''Mitral'', pos = (320, 213), order = 5\<rparr>,
               aligned_this_frame = False, visited_flag = False\<rparr>] 1 False)"
  by (simp add: sideways_pose_def track_pose_def compute_targets_def draw_skeleton_def py_index_def
     length_pose_at draw_connection_lines_Inr hand_positions_of_def
     compute_cardiac_points_def get_body_anchors_pose_at px_def py_int_def Let_def
     sync_visited_def dict_contains_def order_active_of_def dict_get_def all_done_of_def)

subsection \<open>One iteration of the server loop\<close>

lemma apply_reset_simps:
  "mode (apply_reset s) = mode s"
  "running (apply_reset s) = running s"
  "jpeg_frame (apply_reset s) = jpeg_frame s"
  "frame_event_sets (apply_reset s) = frame_event_sets s"
  "reset_requested (apply_reset s) = False"
  "visited (apply_reset s) = (if reset_requested s then [] else visited s)"
  by (simp_all add: apply_reset_def)

lemma publish_simps:
  "mode (publish f s) = mode s"
  "running (publish f s) = running s"
  "visited (publish f s) = visited s"
  "reset_requested (publish f s) = reset_requested s"
  "jpeg_frame (publish f s) = Some f"
  "frame_event_sets (publish f s) = Suc (frame_event_sets s)"
  by (simp_all add: publish_def)

lemma write_back_simps:
  "mode (write_back v s) = mode s"
  "running (write_back v s) = running s"
  "visited (write_back v s) = v"
  "reset_requested (write_back v s) = reset_requested s"
  "jpeg_frame (write_back v s) = jpeg_frame s"
  "frame_event_sets (write_back v s) = frame_event_sets s"
  by (simp_all add: write_back_def)

lemma loop_body_read_failed: "\<not> ret c \<Longrightarrow> loop_body c (l, s) = Inr (l, s)"
  by (simp add: loop_body_def)

lemma loop_body_initializing:
  "ret c \<Longrightarrow> last_pose_res (detect c l) = None \<Longrightarrow>
   loop_body c (l, s) = Inr (detect c l, publish Initializing s)"
  by (simp add: loop_body_def Let_def)

lemma loop_body_idle:
  "ret c \<Longrightarrow> last_pose_res (detect c l) = Some [] \<Longrightarrow>
   loop_body c (l, s) = Inr (detect c l, publish StepIntoFrame (apply_reset s))"
  by (simp add: loop_body_def Let_def take_snapshot_def)

lemma loop_body_pose:
  "ret c \<Longrightarrow> last_pose_res (detect c l) = Some (plm # ps) \<Longrightarrow>
   loop_body c (l, s) =
     (case track_pose (mode s) (visited (apply_reset s)) plm (last_hand_res (detect c l))
             (frame_w c) (frame_h c) of
        Inl e \<Rightarrow> Inl e
      | Inr (vis2, content) \<Rightarrow>
          Inr (detect c l, publish content (write_back vis2 (apply_reset s))))"
  by (simp add: loop_body_def Let_def take_snapshot_def)

lemma loop_body_cases:
  assumes "loop_body c (l, s) = Inr (l', s')"
  shows "(\<not> ret c \<and> l' = l \<and> s' = s)
       \<or> (ret c \<and> l' = detect c l \<and> last_pose_res l' = None \<and> s' = publish Initializing s)
       \<or> (ret c \<and> l' = detect c l \<and> last_pose_res l' = Some []
            \<and> s' = publish StepIntoFrame (apply_reset s))
       \<or> (ret c \<and> l' = detect c l
            \<and> (\<exists>plm ps vis2 content. last_pose_res l' = Some (plm # ps)
                 \<and> track_pose (mode s) (visited (apply_reset s)) plm (last_hand_res l')
                      (frame_w c) (frame_h c) = Inr (vis2, content)
                 \<and> s' = publish content (write_back vis2 (apply_reset s))))"
proof (cases "ret c")
  case False
  then show ?thesis using assms by (simp add: loop_body_read_failed)
next
  case True
  show ?thesis
  proof (cases "last_pose_res (detect c l)")
    case None
    then show ?thesis using assms True by (simp add: loop_body_initializing)
  next
    case (Some pr)
    show ?thesis
    proof (cases pr)
      case Nil
      then show ?thesis using assms True Some by (simp add: loop_body_idle)
    next
      case (Cons plm ps)
      then have lp: "last_pose_res (detect c l) = Some (plm # ps)" using Some by simp
      show ?thesis
        using assms True lp unfolding loop_body_pose [OF True lp]
        by (auto split: sum.splits prod.splits)
    qed
  qed
qed

lemma wf_vars_detect: "wf_vars l \<Longrightarrow> wf_capture c \<Longrightarrow> wf_vars (detect c l)"
  by (simp add: wf_vars_def wf_capture_def detect_def Let_def)

lemma wf_vars_init: "wf_vars init_vars"
  by (simp add: wf_vars_def init_vars_def)

lemma loop_body_total:
  assumes "wf_vars l" and "wf_capture c"
  shows "\<exists>s'. loop_body c (l, s) = Inr (if ret c then detect c l else l, s')"
proof (cases "ret c")
  case False
  then show ?thesis by (simp add: loop_body_read_failed)
next
  case True
  have wf: "wf_vars (detect c l)" using assms by (rule wf_vars_detect)
  show ?thesis
  proof (cases "last_pose_res (detect c l)")
    case None
    then show ?thesis using True by (simp add: loop_body_initializing)
  next
    case (Some pr)
    show ?thesis
    proof (cases pr)
      case Nil
      then show ?thesis using True Some by (simp add: loop_body_idle)
    next
      case (Cons plm ps)
      then have lp: "last_pose_res (detect c l) = Some (plm # ps)" using Some by simp
      have len: "29 \<le> length plm"
        using wf lp by (simp add: wf_vars_def wf_pose_res_def)
      have hr: "case last_hand_res (detect c l) of None \<Rightarrow> True | Some hs \<Rightarrow> wf_hand_res hs"
        using wf by (simp add: wf_vars_def)
      obtain vis2 content where
        "track_pose (mode s) (visited (apply_reset s)) plm (last_hand_res (detect c l))
             (frame_w c) (frame_h c) = Inr (vis2, content)"
        using track_pose_total [OF len hr] by blast
      then show ?thesis using True by (simp add: loop_body_pose [OF True lp])
    qed
  qed
qed

lemma track_pose_map_of:
  assumes "track_pose m vis plm hr w h = Inr (vis2, content)"
  shows "\<exists>ts a hps. compute_targets (m = ''heart'') plm w h = Inr (ts, a)
           \<and> hand_positions_of hr w h = Inr hps
           \<and> (\<forall>n. map_of vis2 n =
                 (if n \<in> set (target_names (m = ''heart''))
                  then Some (dict_get vis n False
                        \<or> (\<exists>t \<in> set ts. name t = n
                             \<and> (\<exists>hp \<in> set hps. dist_pts hp (pos t) < real_of_int ALIGNMENT_RADIUS)))
                  else None))"
proof -
  obtain ts a hps where c: "compute_targets (m = ''heart'') plm w h = Inr (ts, a)"
    and hp: "hand_positions_of hr w h = Inr hps"
    and v: "vis2 = snd (align_targets ALIGNMENT_RADIUS hps ts (sync_visited ts vis))"
    using track_pose_Inr [OF assms] by blast
  have nm: "set (target_names (m = ''heart'')) = name ` set ts"
    using compute_targets_names [OF c] by (metis set_map)
  have "map_of vis2 n =
          (if n \<in> set (target_names (m = ''heart''))
           then Some (dict_get vis n False
                 \<or> (\<exists>t \<in> set ts. name t = n
                      \<and> (\<exists>hp \<in> set hps. dist_pts hp (pos t) < real_of_int ALIGNMENT_RADIUS)))
           else None)" for n
    unfolding v nm by (auto simp: map_of_align_targets map_of_sync_visited)
  then show ?thesis using c hp by blast
qed

subsection \<open>The status route\<close>

lemma py_round1_of_int: "py_round1 (real_of_int k) = real_of_int k"
proof -
  have "\<lfloor>real_of_int k * 10\<rfloor> = k * 10"
    by (metis floor_of_int of_int_mult of_int_numeral)
  then show ?thesis by (simp add: py_round1_def Let_def)
qed

lemma py_round1_0: "py_round1 0 = 0"
  using py_round1_of_int [of 0] by simp

lemma py_round1_nearest:
  "\<exists>k. py_round1 v = real_of_int k / 10 \<and> \<bar>real_of_int k - v * 10\<bar> \<le> 1 / 2"
proof -
  define t where "t = v * 10"
  define f where "f = \<lfloor>t\<rfloor>"
  define r where "r = (if t - real_of_int f < 1 / 2 then f else if 1 / 2 < t - real_of_int f then f + 1
                      else if even f then f else f + 1)"
  have f: "real_of_int f \<le> t" "t < real_of_int f + 1"
    unfolding f_def by linarith+
  have p: "py_round1 v = real_of_int r / 10"
    unfolding py_round1_def Let_def r_def f_def t_def by (rule refl)
  have "\<bar>real_of_int r - t\<bar> \<le> 1 / 2"
    using f unfolding r_def by (simp split: if_splits)
  then show ?thesis using p unfolding t_def by blast
qed

lemma filter_values: "filter (\<lambda>v. v) (map snd vis) = map snd (filter snd vis)"
  by (induction vis) auto

lemma all_true_iff: "length (filter snd vis) = length vis \<longleftrightarrow> (\<forall>e \<in> set vis. snd e)"
  by (metis filter_True filter_id_conv length_filter_less less_irrefl)

lemma status_fields:
  "st_mode (tracker_status s) = mode s"
  "st_visited (tracker_status s) = visited s"
  "st_total (tracker_status s) = int (length (visited s))"
  "st_done (tracker_status s) = int (length (filter snd (visited s)))"
  "st_progress (tracker_status s) =
     (if visited s \<noteq> []
      then py_round1 (real (length (filter snd (visited s))) / real (length (visited s)) * 100)
      else 0)"
  "st_allDone (tracker_status s) =
     (visited s \<noteq> [] \<and> length (filter snd (visited s)) = length (visited s))"
  by (simp_all add: tracker_status_def Let_def py_round1_0 filter_values)

lemma round_one_seventh: "py_round1 (1 / 7 * 100) = 143 / 10"
  by (simp add: py_round1_def Let_def)


text \<open>
  Against claim C8 as stated: in lung mode with seven entries of which one is true, the
  reported progress is 14.3, not the percentage one seventh.
\<close>

theorem status_progress_is_rounded:
  "st_total (tracker_status (init_state\<lparr>mode := ''lung'', visited :=
       [(''R Apex'', False), (''L Apex'', True), (''R Upper'', False), (''L Upper'', False),
        (''R Middle'', False), (''R Lower'', False), (''L Lower'', False)]\<rparr>)) = 7
   \<and> st_done (tracker_status (init_state\<lparr>mode := ''lung'', visited :=
       [(''R Apex'', False), (''L Apex'', True), (''R Upper'', False), (''L Upper'', False),
        (''R Middle'', False), (''R Lower'', False), (''L Lower'', False)]\<rparr>)) = 1
   \<and> st_progress (tracker_status (init_state\<lparr>mode := ''lung'', visited :=
       [(''R Apex'', False), (''L Apex'', True), (''R Upper'', False), (''L Upper'', False),
        (''R Middle'', False), (''R Lower'', False), (''L Lower'', False)]\<rparr>)) = 143 / 10
   \<and> st_progress (tracker_status (init_state\<lparr>mode := ''lung'', visited :=
       [(''R Apex'', False), (''L Apex'', True), (''R Upper'', False), (''L Upper'', False),
        (''R Middle'', False), (''R Lower'', False), (''L Lower'', False)]\<rparr>)) \<noteq> 1 / 7 * 100"
  using round_one_seventh by (simp add: status_fields)

text \<open>
  Claim C8, amended. The status route reports the number of entries of the visited dict
  as total and the number of entries with a true value as done; \<open>allDone\<close> is
  \<open>total > 0 and done == total\<close>, that is, the dict is not empty and every value is true;
  progress is \<open>done / total\<close> as a percentage rounded to one decimal place, a multiple of
  0.1 at most 0.05 away from the exact percentage, and 0 for an empty dict. With five
  entries of which exactly two are true it reports total 5, done 2, progress 40.0 and
  \<open>allDone\<close> false.
\<close>

theorem status_postcondition:
  "st_mode (tracker_status s) = mode s
   \<and> st_visited (tracker_status s) = visited s
   \<and> st_total (tracker_status s) = int (length (visited s))
   \<and> st_done (tracker_status s) = int (length (filter snd (visited s)))
   \<and> st_allDone (tracker_status s) =
        (0 < length (visited s) \<and> length (filter snd (visited s)) = length (visited s))
   \<and> st_allDone (tracker_status s) = (visited s \<noteq> [] \<and> (\<forall>e \<in> set (visited s). snd e))
   \<and> st_progress (tracker_status s) =
        (if visited s = [] then 0
         else py_round1 (real (length (filter snd (visited s))) / real (length (visited s)) * 100))
   \<and> (visited s \<noteq> [] \<longrightarrow>
        (\<exists>k. st_progress (tracker_status s) = real_of_int k / 10
           \<and> \<bar>real_of_int k
                - real (length (filter snd (visited s))) / real (length (visited s)) * 1000\<bar> \<le> 1 / 2))
   \<and> (length (visited s) = 5 \<and> length (filter snd (visited s)) = 2 \<longrightarrow>
        st_total (tracker_status s) = 5 \<and> st_done (tracker_status s) = 2
        \<and> st_progress (tracker_status s) = 40 \<and> \<not> st_allDone (tracker_status s))"
proof -
  have p40: "py_round1 40 = 40"
    using py_round1_of_int [of 40] by simp
  have c5: "st_allDone (tracker_status s) =
        (0 < length (visited s) \<and> length (filter snd (visited s)) = length (visited s))"
    by (simp add: status_fields)
  have c6: "st_allDone (tracker_status s) = (visited s \<noteq> [] \<and> (\<forall>e \<in> set (visited s). snd e))"
    by (simp add: status_fields all_true_iff)
  have c7: "st_progress (tracker_status s) =
        (if visited s = [] then 0
         else py_round1 (real (length (filter snd (visited s))) / real (length (visited s)) * 100))"
    by (simp add: status_fields)
  have c8: "visited s \<noteq> [] \<longrightarrow>
        (\<exists>k. st_progress (tracker_status s) = real_of_int k / 10
           \<and> \<bar>real_of_int k
                - real (length (filter snd (visited s))) / real (length (visited s)) * 1000\<bar> \<le> 1 / 2)"
  proof
    assume ne: "visited s \<noteq> []"
    obtain k where k: "py_round1 (real (length (filter snd (visited s))) / real (length (visited s)) * 100)
                         = real_of_int k / 10"
      and b: "\<bar>real_of_int k
                - real (length (filter snd (visited s))) / real (length (visited s)) * 100 * 10\<bar> \<le> 1 / 2"
      using py_round1_nearest by blast
    have "st_progress (tracker_status s) = real_of_int k / 10"
      using ne k by (simp add: status_fields)
    moreover have "\<bar>real_of_int k
                - real (length (filter snd (visited s))) / real (length (visited s)) * 1000\<bar> \<le> 1 / 2"
      using b by (simp add: ac_simps)
    ultimately show "\<exists>k. st_progress (tracker_status s) = real_of_int k / 10
           \<and> \<bar>real_of_int k
                - real (length (filter snd (visited s))) / real (length (visited s)) * 1000\<bar> \<le> 1 / 2"
      by blast
  qed
  have c9: "length (visited s) = 5 \<and> length (filter snd (visited s)) = 2 \<longrightarrow>
        st_total (tracker_status s) = 5 \<and> st_done (tracker_status s) = 2
        \<and> st_progress (tracker_status s) = 40 \<and> \<not> st_allDone (tracker_status s)"
  proof
    assume a: "length (visited s) = 5 \<and> length (filter snd (visited s)) = 2"
    then have ne: "visited s \<noteq> []" by auto
    show "st_total (tracker_status s) = 5 \<and> st_done (tracker_status s) = 2
        \<and> st_progress (tracker_status s) = 40 \<and> \<not> st_allDone (tracker_status s)"
      using a ne p40 by (simp add: status_fields)
  qed
  show ?thesis
    using c5 c6 c7 c8 c9 status_fields(1,2,3,4) [of s] by blast
qed

theorem status_postcondition_witness:
  "tracker_status
     (init_state\<lparr>visited := [(''Aortic'', False), (''Pulmonic'', True), (''Erb's Pt'', False),
                            (''Tricuspid'', False), (''Mitral'', True)]\<rparr>) =
   \<lparr>st_mode = ''heart'',
    st_visited = [(''Aortic'', False), (''Pulmonic'', True), (''Erb's Pt'', False),
                  (''Tricuspid'', False), (''Mitral'', True)],
    st_total = 5, st_done = 2, st_progress = 40, st_allDone = False\<rparr>"
proof -
  let ?s = "init_state\<lparr>visited := [(''Aortic'', False), (''Pulmonic'', True), (''Erb's Pt'', False),
                            (''Tricuspid'', False), (''Mitral'', True)]\<rparr>"
  have h: "length (visited ?s) = 5 \<and> length (filter snd (visited ?s)) = 2"
    by simp
  have m: "mode ?s = ''heart''"
    by (simp add: init_state_def)
  have v: "visited ?s = [(''Aortic'', False), (''Pulmonic'', True), (''Erb's Pt'', False),
                            (''Tricuspid'', False), (''Mitral'', True)]"
    by simp
  have t: "st_mode (tracker_status ?s) = mode ?s \<and> st_visited (tracker_status ?s) = visited ?s
        \<and> st_total (tracker_status ?s) = 5 \<and> st_done (tracker_status ?s) = 2
        \<and> st_progress (tracker_status ?s) = 40 \<and> \<not> st_allDone (tracker_status ?s)"
    using status_postcondition [of ?s] h by blast
  show ?thesis
    using m v t by (cases "tracker_status ?s") simp
qed

subsection \<open>The mode selector\<close>

lemma lower_char_cases:
  "(c, lower_char c) \<in> set (zip ''ABCDEFGHIJKLMNOPQRSTUVWXYZ'' ''abcdefghijklmnopqrstuvwxyz'')
   \<or> (c \<notin> set ''ABCDEFGHIJKLMNOPQRSTUVWXYZ'' \<and> lower_char c = c)"
proof (cases "map_of (zip ''ABCDEFGHIJKLMNOPQRSTUVWXYZ'' ''abcdefghijklmnopqrstuvwxyz'') c")
  case None
  have m: "map fst (zip ''ABCDEFGHIJKLMNOPQRSTUVWXYZ'' ''abcdefghijklmnopqrstuvwxyz'')
             = ''ABCDEFGHIJKLMNOPQRSTUVWXYZ''"
    by (rule map_fst_zip) simp
  from None have "c \<notin> fst ` set (zip ''ABCDEFGHIJKLMNOPQRSTUVWXYZ'' ''abcdefghijklmnopqrstuvwxyz'')"
    by (metis map_of_eq_None_iff)
  then have "c \<notin> set ''ABCDEFGHIJKLMNOPQRSTUVWXYZ''"
    by (metis m set_map)
  moreover have "lower_char c = c"
    unfolding lower_char_def None by simp
  ultimately show ?thesis by blast
next
  case (Some l)
  then have "(c, l) \<in> set (zip ''ABCDEFGHIJKLMNOPQRSTUVWXYZ'' ''abcdefghijklmnopqrstuvwxyz'')"
    by (rule map_of_SomeD)
  moreover have "lower_char c = l"
    unfolding lower_char_def Some by simp
  ultimately show ?thesis by blast
qed


lemma lower_char_l: "lower_char c = CHR ''l'' \<longleftrightarrow> c = CHR ''l'' \<or> c = CHR ''L''"
  using lower_char_cases [of c] by auto


lemma lower_char_u: "lower_char c = CHR ''u'' \<longleftrightarrow> c = CHR ''u'' \<or> c = CHR ''U''"
  using lower_char_cases [of c] by auto

lemma lower_char_n: "lower_char c = CHR ''n'' \<longleftrightarrow> c = CHR ''n'' \<or> c = CHR ''N''"
  using lower_char_cases [of c] by auto

lemma lower_char_g: "lower_char c = CHR ''g'' \<longleftrightarrow> c = CHR ''g'' \<or> c = CHR ''G''"
  using lower_char_cases [of c] by auto

lemma str_lower_lung:
  "str_lower a = ''lung'' \<longleftrightarrow>
     (\<exists>c1 c2 c3 c4. a = [c1, c2, c3, c4]
        \<and> c1 \<in> {CHR ''l'', CHR ''L''} \<and> c2 \<in> {CHR ''u'', CHR ''U''}
        \<and> c3 \<in> {CHR ''n'', CHR ''N''} \<and> c4 \<in> {CHR ''g'', CHR ''G''})"
proof
  assume h: "str_lower a = ''lung''"
  then have "length (map lower_char a) = length ''lung''"
    unfolding str_lower_def by (rule arg_cong)
  then have "length a = Suc (Suc (Suc (Suc 0)))"
    by simp
  then obtain c1 c2 c3 c4 where a: "a = [c1, c2, c3, c4]"
    by (auto simp: length_Suc_conv)
  have "lower_char c1 = CHR ''l''" "lower_char c2 = CHR ''u''"
       "lower_char c3 = CHR ''n''" "lower_char c4 = CHR ''g''"
    using h unfolding a str_lower_def by simp_all
  then have "c1 \<in> {CHR ''l'', CHR ''L''} \<and> c2 \<in> {CHR ''u'', CHR ''U''}
        \<and> c3 \<in> {CHR ''n'', CHR ''N''} \<and> c4 \<in> {CHR ''g'', CHR ''G''}"
    by (simp add: lower_char_l lower_char_u lower_char_n lower_char_g)
  then show "\<exists>c1 c2 c3 c4. a = [c1, c2, c3, c4]
        \<and> c1 \<in> {CHR ''l'', CHR ''L''} \<and> c2 \<in> {CHR ''u'', CHR ''U''}
        \<and> c3 \<in> {CHR ''n'', CHR ''N''} \<and> c4 \<in> {CHR ''g'', CHR ''G''}"
    using a by blast
next
  assume "\<exists>c1 c2 c3 c4. a = [c1, c2, c3, c4]
        \<and> c1 \<in> {CHR ''l'', CHR ''L''} \<and> c2 \<in> {CHR ''u'', CHR ''U''}
        \<and> c3 \<in> {CHR ''n'', CHR ''N''} \<and> c4 \<in> {CHR ''g'', CHR ''G''}"
  then obtain c1 c2 c3 c4 where a: "a = [c1, c2, c3, c4]"
    and c: "lower_char c1 = CHR ''l''" "lower_char c2 = CHR ''u''"
           "lower_char c3 = CHR ''n''" "lower_char c4 = CHR ''g''"
    unfolding lower_char_l lower_char_u lower_char_n lower_char_g by blast
  show "str_lower a = ''lung''"
    unfolding a str_lower_def using c by simp
qed

lemma requested_mode_eq:
  "requested_mode arg =
     (if \<exists>a. arg = Some a \<and> str_lower a = ''lung'' then ''lung'' else ''heart'')"
proof (cases arg)
  case None
  have "str_lower ''heart'' \<noteq> ''lung''"
    by (simp add: str_lower_lung)
  then show ?thesis using None by (auto simp: requested_mode_def Let_def)
next
  case (Some a)
  then show ?thesis by (auto simp: requested_mode_def Let_def)
qed

text \<open>
  Against claim C3 as stated: a \<^verbatim>\<open>/feed\<close> request for the mode that is already active
  leaves the visited dict as it was.
\<close>

theorem same_mode_feed_keeps_visited:
  "mode (init_state\<lparr>visited := [(''Aortic'', True), (''Pulmonic'', False), (''Erb's Pt'', False),
                                   (''Tricuspid'', False), (''Mitral'', False)]\<rparr>) = ''heart''
   \<and> visited (feed (Some ''heart'')
        (init_state\<lparr>visited := [(''Aortic'', True), (''Pulmonic'', False), (''Erb's Pt'', False),
                                 (''Tricuspid'', False), (''Mitral'', False)]\<rparr>))
       = [(''Aortic'', True), (''Pulmonic'', False), (''Erb's Pt'', False),
          (''Tricuspid'', False), (''Mitral'', False)]"
proof -
  have "requested_mode (Some ''heart'') = ''heart''"
    by (simp add: requested_mode_eq str_lower_lung)
  then show ?thesis by (simp add: feed_def init_state_def)
qed

text \<open>
  Claim C3, amended. \<^verbatim>\<open>/feed\<close> sets the mode to lung when the requested mode spells
  lung in any mix of upper and lower case, and to heart for every other request and for
  a request without a mode. It clears the visited dict exactly when the mode so set
  differs from the mode that was active; when it equals the active mode the whole state
  is left unchanged. No other field is touched, so a pending reset stays pending. The
  mode key of the standalone lung tracker always switches to the other mode, keeps the
  loop running and clears the dict.
\<close>

theorem feed_clears_on_mode_change_only:
  "mode (feed arg s) =
     (if \<exists>c1 c2 c3 c4. arg = Some [c1, c2, c3, c4]
           \<and> c1 \<in> {CHR ''l'', CHR ''L''} \<and> c2 \<in> {CHR ''u'', CHR ''U''}
           \<and> c3 \<in> {CHR ''n'', CHR ''N''} \<and> c4 \<in> {CHR ''g'', CHR ''G''}
      then ''lung'' else ''heart'')
   \<and> visited (feed arg s) = (if mode (feed arg s) = mode s then visited s else [])
   \<and> (mode (feed arg s) = mode s \<longrightarrow> feed arg s = s)
   \<and> reset_requested (feed arg s) = reset_requested s
   \<and> running (feed arg s) = running s
   \<and> jpeg_frame (feed arg s) = jpeg_frame s
   \<and> frame_event_sets (feed arg s) = frame_event_sets s
   \<and> (\<exists>v'. hl_on_key 109 content v = Shown content v' True
          \<and> hl_visited v' = [] \<and> hl_mode v' \<noteq> hl_mode v
          \<and> hl_mode v' = (if hl_mode v = ''lung'' then ''cardiac'' else ''lung''))"
proof -
  have m: "mode (feed arg s) = requested_mode arg"
    by (simp add: feed_def Let_def)
  have r: "requested_mode arg =
     (if \<exists>c1 c2 c3 c4. arg = Some [c1, c2, c3, c4]
           \<and> c1 \<in> {CHR ''l'', CHR ''L''} \<and> c2 \<in> {CHR ''u'', CHR ''U''}
           \<and> c3 \<in> {CHR ''n'', CHR ''N''} \<and> c4 \<in> {CHR ''g'', CHR ''G''}
      then ''lung'' else ''heart'')"
    unfolding requested_mode_eq str_lower_lung by auto
  have 1: "visited (feed arg s) = (if mode (feed arg s) = mode s then visited s else [])"
    unfolding m by (simp add: feed_def Let_def)
  have 2: "mode (feed arg s) = mode s \<longrightarrow> feed arg s = s"
    unfolding m by (simp add: feed_def Let_def)
  have 3: "reset_requested (feed arg s) = reset_requested s \<and> running (feed arg s) = running s
       \<and> jpeg_frame (feed arg s) = jpeg_frame s \<and> frame_event_sets (feed arg s) = frame_event_sets s"
    by (simp add: feed_def Let_def)
  have 4: "\<exists>v'. hl_on_key 109 content v = Shown content v' True
          \<and> hl_visited v' = [] \<and> hl_mode v' \<noteq> hl_mode v
          \<and> hl_mode v' = (if hl_mode v = ''lung'' then ''cardiac'' else ''lung'')"
    by (simp add: hl_on_key_def)
  show ?thesis
    using m r 1 2 3 4 by simp
qed

theorem feed_clears_on_mode_change_only_witness:
  "mode (feed (Some ''LuNg'') (init_state\<lparr>visited := [(''Aortic'', True)]\<rparr>)) = ''lung''
   \<and> visited (feed (Some ''LuNg'') (init_state\<lparr>visited := [(''Aortic'', True)]\<rparr>)) = []
   \<and> mode (feed (Some ''xyz'') (init_state\<lparr>mode := ''lung'', visited := [(''R Apex'', True)]\<rparr>)) = ''heart''
   \<and> visited (feed (Some ''xyz'') (init_state\<lparr>mode := ''lung'', visited := [(''R Apex'', True)]\<rparr>)) = []
   \<and> feed None (init_state\<lparr>visited := [(''Aortic'', True)]\<rparr>) = init_state\<lparr>visited := [(''Aortic'', True)]\<rparr>"
proof -
  let ?h = "init_state\<lparr>visited := [(''Aortic'', True)]\<rparr>"
  let ?l = "init_state\<lparr>mode := ''lung'', visited := [(''R Apex'', True)]\<rparr>"
  have L: "\<exists>c1 c2 c3 c4. Some ''LuNg'' = Some [c1, c2, c3, c4]
           \<and> c1 \<in> {CHR ''l'', CHR ''L''} \<and> c2 \<in> {CHR ''u'', CHR ''U''}
           \<and> c3 \<in> {CHR ''n'', CHR ''N''} \<and> c4 \<in> {CHR ''g'', CHR ''G''}"
    by (rule exI [of _ "CHR ''L''"], rule exI [of _ "CHR ''u''"],
        rule exI [of _ "CHR ''N''"], rule exI [of _ "CHR ''g''"]) simp
  have X: "\<not> (\<exists>c1 c2 c3 c4. Some ''xyz'' = Some [c1, c2, c3, c4]
           \<and> c1 \<in> {CHR ''l'', CHR ''L''} \<and> c2 \<in> {CHR ''u'', CHR ''U''}
           \<and> c3 \<in> {CHR ''n'', CHR ''N''} \<and> c4 \<in> {CHR ''g'', CHR ''G''})"
    by simp
  have N: "\<not> (\<exists>c1 c2 c3 c4. None = Some [c1, c2, c3, c4]
           \<and> c1 \<in> {CHR ''l'', CHR ''L''} \<and> c2 \<in> {CHR ''u'', CHR ''U''}
           \<and> c3 \<in> {CHR ''n'', CHR ''N''} \<and> c4 \<in> {CHR ''g'', CHR ''G''})"
    by simp
  have mh: "mode ?h = ''heart''" and ml: "mode ?l = ''lung''"
    by (simp_all add: init_state_def)
  have m1: "mode (feed (Some ''LuNg'') ?h) = ''lung''"
    using feed_clears_on_mode_change_only [of "Some ''LuNg''" ?h] unfolding if_P [OF L] by blast
  have v1: "visited (feed (Some ''LuNg'') ?h) = []"
    using feed_clears_on_mode_change_only [of "Some ''LuNg''" ?h] unfolding m1 mh by simp
  have m2: "mode (feed (Some ''xyz'') ?l) = ''heart''"
    using feed_clears_on_mode_change_only [of "Some ''xyz''" ?l] unfolding if_not_P [OF X] by blast
  have v2: "visited (feed (Some ''xyz'') ?l) = []"
    using feed_clears_on_mode_change_only [of "Some ''xyz''" ?l] unfolding m2 ml by simp
  have m3: "mode (feed None ?h) = ''heart''"
    using feed_clears_on_mode_change_only [of None ?h] unfolding if_not_P [OF N] by blast
  have e3: "feed None ?h = ?h"
    using feed_clears_on_mode_change_only [of None ?h] unfolding m3 mh by simp
  show ?thesis
    using m1 v1 m2 v2 e3 by simp
qed

subsection \<open>Degenerate poses\<close>

lemma length_narrow_pose: "length narrow_pose = 33"
  by (simp add: narrow_pose_def length_pose_at)

lemma compute_targets_narrow:
  "compute_targets True narrow_pose 640 480 =
     Inr ([\<lparr>name = ''Aortic'', pos = (322, 148), order = 1\<rparr>,
           \<lparr>name = ''Pulmonic'', pos = (322, 148), order = 2\<rparr>,
           \<lparr>name = ''Erb's Pt'', pos = (322, 170), order = 3\<rparr>,
           \<lparr>name = ''Tricuspid'', pos = (322, 192), order = 4\<rparr>,
           \<lparr>name = ''Mitral'', pos = (323, 213), order = 5\<rparr>],
          ((325, 120), (320, 120), (325, 360), (320, 360)))"
  by (simp add: narrow_pose_def compute_targets_def compute_cardiac_points_def
        get_body_anchors_pose_at px_def py_int_def Let_def)

lemma track_pose_targets:
  assumes "29 \<le> length plm" and "case hr of None \<Rightarrow> True | Some hs \<Rightarrow> wf_hand_res hs"
  shows "\<exists>ts a vis2 ds oa ad.
           compute_targets (m = ''heart'') plm w h = Inr (ts, a)
         \<and> length ts = (if m = ''heart'' then 5 else 7)
         \<and> draw_connection_lines ts = Inr ()
         \<and> track_pose m vis plm hr w h = Inr (vis2, Annotated ds oa ad)
         \<and> map d_target ds = ts"
proof -
  obtain vis2 content where t: "track_pose m vis plm hr w h = Inr (vis2, content)"
    using track_pose_total [OF assms] by blast
  obtain ts a hps where c: "compute_targets (m = ''heart'') plm w h = Inr (ts, a)"
    and ct: "content = Annotated (fst (align_targets ALIGNMENT_RADIUS hps ts (sync_visited ts vis)))
                 (order_active_of ts (sync_visited ts vis)) (all_done_of vis2)"
    using track_pose_Inr [OF t] by blast
  have len: "length ts = (if m = ''heart'' then 5 else 7)"
    using names_count [OF compute_targets_names [OF c]] by simp
  show ?thesis
    using c len t ct align_targets_targets draw_connection_lines_Inr by blast
qed


text \<open>
  Against claim C5 as stated: the sideways pose has shoulder width zero, and in the frame
  after a frame of the facing pose its five targets are computed afresh and drawn on the
  midline \<open>x = 320\<close>. The frame neither skips the targets nor shows those of the frame
  before.
\<close>

theorem degenerate_pose_not_guarded:
  "\<bar>fst (px (sideways_pose ! 12) 640 480) - fst (px (sideways_pose ! 11) 640 480)\<bar> = 0
   \<and> track_pose ''heart'' [] facing_pose None 640 480 =
     Inr ([(''Aortic'', False), (''Pulmonic'', False), (''Erb's Pt'', False),
           (''Tricuspid'', False), (''Mitral'', False)],
          Annotated
            [\<lparr>d_target = \<lparr>name = ''Aortic'', pos = (306, 148), order = 1\<rparr>,
               aligned_this_frame = False, visited_flag = False\<rparr>,
             \<lparr>d_target = \<lparr>name = ''Pulmonic'', pos = (334, 148), order = 2\<rparr>,
               aligned_this_frame = False, visited_flag = False\<rparr>,
             \<lparr>d_target = \<lparr>name = ''Erb's Pt'', pos = (334, 170), order = 3\<rparr>,
               aligned_this_frame = False, visited_flag = False\<rparr>,
             \<lparr>d_target = \<lparr>name = ''Tricuspid'', pos = (334, 192), order = 4\<rparr>,
               aligned_this_frame = False, visited_flag = False\<rparr>,
             \<lparr>d_target = \<lparr>name = ''Mitral'', pos = (360, 213), order = 5\<rparr>,
               aligned_this_frame = False, visited_flag = False\<rparr>] 1 False)
   \<and> track_pose ''heart''
       [(''Aortic'', False), (''Pulmonic'', False), (''Erb's Pt'', False),
        (''Tricuspid'', False), (''Mitral'', False)] sideways_pose None 640 480 =
     Inr ([(''Aortic'', False), (''Pulmonic'', False), (''Erb's Pt'', False),
           (''Tricuspid'', False), (''Mitral'', False)],
          Annotated
            [\<lparr>d_target = \<lparr>name = ''Aortic'', pos = (320, 148), order = 1\<rparr>,
               aligned_this_frame = False, visited_flag = False\<rparr>,
             \<lparr>d_target = \<lparr>name = ''Pulmonic'', pos = (320, 148), order = 2\<rparr>,
               aligned_this_frame = False, visited_flag = False\<rparr>,
             \<lparr>d_target = \<lparr>name = ''Erb's Pt'', pos = (320, 170), order = 3\<rparr>,
               aligned_this_frame = False, visited_flag = False\<rparr>,
             \<lparr>d_target = \<lparr>name = ''Tricuspid'', pos = (320, 192), order = 4\<rparr>,
               aligned_this_frame = False, visited_flag = False\<rparr>,
             \<lparr>d_target = \<lparr>name = ''Mitral'', pos = (320, 213), order = 5\<rparr>,
               aligned_this_frame = False, visited_flag = False\<rparr>] 1 False)"
proof -
  have "\<bar>fst (px (sideways_pose ! 12) 640 480) - fst (px (sideways_pose ! 11) 640 480)\<bar> = 0"
    by (simp add: sideways_pose_def pose_at_nth px_def)
  then show ?thesis
    using track_pose_facing track_pose_sideways by simp
qed

text \<open>
  Claim C5, amended. For every pose, and so for every pose whose shoulder width is zero or
  near zero, the target computation is neither skipped nor replaced by the targets of
  the frame before: the mapper of the active mode returns normally with its full list
  of 5 or 7 targets, the frame is drawn with exactly these targets, and nothing is
  raised. In particular no division by zero occurs: shoulder width and torso height are
  only multiplied, and the one division by a quantity of the geometry, the dash
  direction between consecutive targets, is skipped for targets closer than one pixel,
  so drawing the connection lines returns normally. All coordinates are integers.
\<close>

theorem degenerate_pose_computed_without_error:
  assumes "29 \<le> length plm" and "case hr of None \<Rightarrow> True | Some hs \<Rightarrow> wf_hand_res hs"
  shows "\<exists>ts a vis2 ds oa ad.
           compute_targets (m = ''heart'') plm w h = Inr (ts, a)
         \<and> length ts = (if m = ''heart'' then 5 else 7)
         \<and> draw_connection_lines ts = Inr ()
         \<and> track_pose m vis plm hr w h = Inr (vis2, Annotated ds oa ad)
         \<and> map d_target ds = ts"
  using assms by (rule track_pose_targets)

theorem degenerate_pose_computed_without_error_witness:
  "\<bar>fst (px (narrow_pose ! 12) 640 480) - fst (px (narrow_pose ! 11) 640 480)\<bar> = 5
   \<and> (\<exists>a vis2 ds oa ad.
         compute_targets True narrow_pose 640 480 =
           Inr ([\<lparr>name = ''Aortic'', pos = (322, 148), order = 1\<rparr>,
                 \<lparr>name = ''Pulmonic'', pos = (322, 148), order = 2\<rparr>,
                 \<lparr>name = ''Erb's Pt'', pos = (322, 170), order = 3\<rparr>,
                 \<lparr>name = ''Tricuspid'', pos = (322, 192), order = 4\<rparr>,
                 \<lparr>name = ''Mitral'', pos = (323, 213), order = 5\<rparr>], a)
       \<and> draw_connection_lines
           [\<lparr>name = ''Aortic'', pos = (322, 148), order = 1\<rparr>,
            \<lparr>name = ''Pulmonic'', pos = (322, 148), order = 2\<rparr>,
            \<lparr>name = ''Erb's Pt'', pos = (322, 170), order = 3\<rparr>,
            \<lparr>name = ''Tricuspid'', pos = (322, 192), order = 4\<rparr>,
            \<lparr>name = ''Mitral'', pos = (323, 213), order = 5\<rparr>] = Inr ()
       \<and> track_pose ''heart'' [] narrow_pose None 640 480 = Inr (vis2, Annotated ds oa ad)
       \<and> map d_target ds =
           [\<lparr>name = ''Aortic'', pos = (322, 148), order = 1\<rparr>,
            \<lparr>name = ''Pulmonic'', pos = (322, 148), order = 2\<rparr>,
            \<lparr>name = ''Erb's Pt'', pos = (322, 170), order = 3\<rparr>,
            \<lparr>name = ''Tricuspid'', pos = (322, 192), order = 4\<rparr>,
            \<lparr>name = ''Mitral'', pos = (323, 213), order = 5\<rparr>])"
proof -
  have w: "\<bar>fst (px (narrow_pose ! 12) 640 480) - fst (px (narrow_pose ! 11) 640 480)\<bar> = 5"
    by (simp add: narrow_pose_def pose_at_nth px_def py_int_def)
  have l: "29 \<le> length narrow_pose"
    by (simp add: length_narrow_pose)
  have n: "case None of None \<Rightarrow> True | Some hs \<Rightarrow> wf_hand_res hs"
    by simp
  obtain ts a vis2 ds oa ad where
    c: "compute_targets (''heart'' = ''heart'') narrow_pose 640 480 = Inr (ts, a)"
    and d: "draw_connection_lines ts = Inr ()"
    and t: "track_pose ''heart'' [] narrow_pose None 640 480 = Inr (vis2, Annotated ds oa ad)"
    and m: "map d_target ds = ts"
    using degenerate_pose_computed_without_error [OF l n, of "''heart''" 640 480 "[]"] by blast
  have ts: "ts = [\<lparr>name = ''Aortic'', pos = (322, 148), order = 1\<rparr>,
                 \<lparr>name = ''Pulmonic'', pos = (322, 148), order = 2\<rparr>,
                 \<lparr>name = ''Erb's Pt'', pos = (322, 170), order = 3\<rparr>,
                 \<lparr>name = ''Tricuspid'', pos = (322, 192), order = 4\<rparr>,
                 \<lparr>name = ''Mitral'', pos = (323, 213), order = 5\<rparr>]"
    using c compute_targets_narrow by simp
  have c': "compute_targets True narrow_pose 640 480 = Inr (ts, a)"
    using c by simp
  note f = c' [unfolded ts] d [unfolded ts] t m [unfolded ts]
  have "\<exists>a vis2 ds oa ad.
         compute_targets True narrow_pose 640 480 =
           Inr ([\<lparr>name = ''Aortic'', pos = (322, 148), order = 1\<rparr>,
                 \<lparr>name = ''Pulmonic'', pos = (322, 148), order = 2\<rparr>,
                 \<lparr>name = ''Erb's Pt'', pos = (322, 170), order = 3\<rparr>,
                 \<lparr>name = ''Tricuspid'', pos = (322, 192), order = 4\<rparr>,
                 \<lparr>name = ''Mitral'', pos = (323, 213), order = 5\<rparr>], a)
       \<and> draw_connection_lines
           [\<lparr>name = ''Aortic'', pos = (322, 148), order = 1\<rparr>,
            \<lparr>name = ''Pulmonic'', pos = (322, 148), order = 2\<rparr>,
            \<lparr>name = ''Erb's Pt'', pos = (322, 170), order = 3\<rparr>,
            \<lparr>name = ''Tricuspid'', pos = (322, 192), order = 4\<rparr>,
            \<lparr>name = ''Mitral'', pos = (323, 213), order = 5\<rparr>] = Inr ()
       \<and> track_pose ''heart'' [] narrow_pose None 640 480 = Inr (vis2, Annotated ds oa ad)
       \<and> map d_target ds =
           [\<lparr>name = ''Aortic'', pos = (322, 148), order = 1\<rparr>,
            \<lparr>name = ''Pulmonic'', pos = (322, 148), order = 2\<rparr>,
            \<lparr>name = ''Erb's Pt'', pos = (322, 170), order = 3\<rparr>,
            \<lparr>name = ''Tricuspid'', pos = (322, 192), order = 4\<rparr>,
            \<lparr>name = ''Mitral'', pos = (323, 213), order = 5\<rparr>]"
    by (rule exI [of _ a], rule exI [of _ vis2], rule exI [of _ ds], rule exI [of _ oa],
        rule exI [of _ ad]) (intro conjI f)
  then show ?thesis
    using w by (rule conjI [rotated])
qed

subsection \<open>The keys of the visited dict\<close>

lemma keys_of_map_of:
  assumes "\<forall>n. map_of d n = (if n \<in> S then Some (f n) else None)"
  shows "fst ` set d = S"
proof -
  have "dom (map_of d) = S"
    using assms by (auto simp: dom_def)
  then show ?thesis by (simp add: dom_map_of_conv_image_fst)
qed

lemma keys_sync_align:
  "fst ` set (snd (align_targets radius hps ts (sync_visited ts vis))) = name ` set ts"
  by (simp add: keys_align_targets keys_sync_visited)

lemma track_pose_keys:
  assumes "track_pose m vis plm hr w h = Inr (vis2, content)"
  shows "\<exists>ts a. compute_targets (m = ''heart'') plm w h = Inr (ts, a)
           \<and> fst ` set vis2 = name ` set ts
           \<and> map name ts = target_names (m = ''heart'')"
proof -
  obtain ts :: "otarget list" and a hps where
    c: "compute_targets (m = ''heart'') plm w h = Inr (ts, a)"
    and v: "vis2 = snd (align_targets ALIGNMENT_RADIUS hps ts (sync_visited ts vis))"
    using track_pose_Inr [OF assms] by blast
  have "fst ` set vis2 = name ` set ts"
    unfolding v by (rule keys_sync_align)
  then show ?thesis using c compute_targets_names [OF c] by blast
qed

lemma track_pose_distinct:
  assumes "track_pose m vis plm hr w h = Inr (vis2, content)" and "distinct (map fst vis)"
  shows "distinct (map fst vis2)"
proof -
  obtain ts :: "otarget list" and a hps where
    v: "vis2 = snd (align_targets ALIGNMENT_RADIUS hps ts (sync_visited ts vis))"
    using track_pose_Inr [OF assms(1)] by blast
  show ?thesis unfolding v
    by (intro distinct_align_targets distinct_sync_visited assms(2))
qed

lemma hl_track_pose_Inr:
  assumes "hl_track_pose md vis plm hands w h = Inr (vis2, content)"
  shows "\<exists>ts a hps. hl_compute_targets md plm w h = Inr (ts, a)
           \<and> collect_hand_positions hands w h = Inr hps
           \<and> vis2 = snd (align_targets HL_ALIGNMENT_RADIUS hps ts (sync_visited ts vis))
           \<and> content = HL_Annotated (fst (align_targets HL_ALIGNMENT_RADIUS hps ts (sync_visited ts vis)))
                 (all_done_of vis2)"
  using assms
  by (auto simp: hl_track_pose_def Let_def split: sum.splits prod.splits)

lemma ht_track_pose_Inr:
  assumes "ht_track_pose vis plm hands w h = Inr (vis2, content)"
  shows "\<exists>ts a hps. ht_compute_cardiac_points plm w h = Inr (ts, a)
           \<and> collect_hand_positions hands w h = Inr hps
           \<and> vis2 = snd (align_targets HT_ALIGNMENT_RADIUS hps ts (add_missing ts vis))
           \<and> content = HT_Annotated (fst (align_targets HT_ALIGNMENT_RADIUS hps ts (add_missing ts vis)))
                 (order_active_of ts (add_missing ts vis)) (all_done_of vis2)"
  using assms
  by (auto simp: ht_track_pose_def Let_def split: sum.splits prod.splits)

lemma hl_compute_targets_names:
  "hl_compute_targets md plm w h = Inr (ts, a) \<Longrightarrow> map name ts = target_names (md \<noteq> ''lung'')"
  by (auto simp: hl_compute_targets_def hl_compute_lung_points_def hl_compute_cardiac_points_def
        target_names_def Let_def split: if_splits sum.splits prod.splits)

lemma ht_compute_cardiac_points_names:
  "ht_compute_cardiac_points plm w h = Inr (ts, a) \<Longrightarrow> map name ts = target_names True"
  by (auto simp: ht_compute_cardiac_points_def target_names_def Let_def split: sum.splits)

lemma hl_track_pose_keys:
  assumes "hl_track_pose md vis plm hands w h = Inr (vis2, content)"
  shows "\<exists>ts a. hl_compute_targets md plm w h = Inr (ts, a)
           \<and> fst ` set vis2 = name ` set ts
           \<and> map name ts = target_names (md \<noteq> ''lung'')"
proof -
  obtain ts :: "starget list" and a hps where c: "hl_compute_targets md plm w h = Inr (ts, a)"
    and v: "vis2 = snd (align_targets HL_ALIGNMENT_RADIUS hps ts (sync_visited ts vis))"
    using hl_track_pose_Inr [OF assms] by blast
  have "fst ` set vis2 = name ` set ts"
    unfolding v by (rule keys_sync_align)
  then show ?thesis using c hl_compute_targets_names [OF c] by blast
qed

lemma ht_track_pose_keys:
  assumes "ht_track_pose vis plm hands w h = Inr (vis2, content)"
  shows "\<exists>ts a. ht_compute_cardiac_points plm w h = Inr (ts, a)
           \<and> fst ` set vis2 = fst ` set vis \<union> name ` set ts
           \<and> map name ts = target_names True"
proof -
  obtain ts :: "htarget list" and a hps where c: "ht_compute_cardiac_points plm w h = Inr (ts, a)"
    and v: "vis2 = snd (align_targets HT_ALIGNMENT_RADIUS hps ts (add_missing ts vis))"
    using ht_track_pose_Inr [OF assms] by blast
  have "fst ` set vis2 = fst ` set (add_missing ts vis)"
    unfolding v by (rule keys_align_targets) (simp add: keys_add_missing)
  then have "fst ` set vis2 = fst ` set vis \<union> name ` set ts"
    by (simp add: keys_add_missing)
  then show ?thesis using c ht_compute_cardiac_points_names [OF c] by blast
qed

lemma keys_cleared_values: "fst ` set (map (\<lambda>(n, b). (n, False)) vis) = fst ` set vis"
  by (induction vis) auto

lemma loop_body_pose_keys:
  assumes "loop_body c (l, s) = Inr (l', s')" and "ret c"
    and "last_pose_res (detect c l) = Some (plm # ps)"
  shows "mode s' = mode s
       \<and> (\<exists>ts a. compute_targets (mode s = ''heart'') plm (frame_w c) (frame_h c) = Inr (ts, a)
             \<and> fst ` set (visited s') = name ` set ts
             \<and> map name ts = target_names (mode s = ''heart''))
       \<and> (distinct (map fst (visited s)) \<longrightarrow> distinct (map fst (visited s')))"
proof -
  obtain vis2 content where
    t: "track_pose (mode s) (visited (apply_reset s)) plm (last_hand_res (detect c l))
          (frame_w c) (frame_h c) = Inr (vis2, content)"
    and s': "s' = publish content (write_back vis2 (apply_reset s))"
    using assms unfolding loop_body_pose [OF assms(2,3)]
    by (auto split: sum.splits prod.splits)
  have v: "visited s' = vis2" and m: "mode s' = mode s"
    unfolding s' by (simp_all add: publish_simps write_back_simps apply_reset_simps)
  have d: "distinct (map fst (visited s)) \<longrightarrow> distinct (map fst (visited s'))"
  proof
    assume "distinct (map fst (visited s))"
    then have "distinct (map fst (visited (apply_reset s)))"
      by (simp add: apply_reset_simps)
    then show "distinct (map fst (visited s'))"
      unfolding v by (rule track_pose_distinct [OF t])
  qed
  show ?thesis
    using track_pose_keys [OF t] m d unfolding v by blast
qed

subsection \<open>Example frames\<close>

lemmas track_eval = track_pose_def compute_targets_def draw_skeleton_def py_index_def
     length_pose_at draw_connection_lines_Inr hand_positions_of_def draw_hand_def
     length_hand_at hand_at_nth palm_near_aortic_def ALIGNMENT_RADIUS_def dist_pts_less_numeral
     compute_cardiac_points_def compute_lung_points_def get_body_anchors_pose_at px_def
     py_int_def Let_def sync_visited_def dict_contains_def order_active_of_def dict_get_def
     all_done_of_def

lemmas loop_eval = loop_body_def detect_def capture_of_def second_frame_def take_snapshot_def
     apply_reset_def publish_def write_back_def init_state_def reset_tracker_def Let_def

lemma track_near_aortic_stale:
  "track_pose ''heart'' [(''R Apex'', True), (''Mitral'', True)] facing_pose
       (Some [hand_at palm_near_aortic]) 640 480 =
     Inr ([(''Mitral'', True), (''Aortic'', True), (''Pulmonic'', False), (''Erb's Pt'', False),
           (''Tricuspid'', False)],
          Annotated
            [\<lparr>d_target = \<lparr>name = ''Aortic'', pos = (306, 148), order = 1\<rparr>,
               aligned_this_frame = True, visited_flag = True\<rparr>,
             \<lparr>d_target = \<lparr>name = ''Pulmonic'', pos = (334, 148), order = 2\<rparr>,
               aligned_this_frame = False, visited_flag = False\<rparr>,
             \<lparr>d_target = \<lparr>name = ''Erb's Pt'', pos = (334, 170), order = 3\<rparr>,
               aligned_this_frame = False, visited_flag = False\<rparr>,
             \<lparr>d_target = \<lparr>name = ''Tricuspid'', pos = (334, 192), order = 4\<rparr>,
               aligned_this_frame = False, visited_flag = False\<rparr>,
             \<lparr>d_target = \<lparr>name = ''Mitral'', pos = (360, 213), order = 5\<rparr>,
               aligned_this_frame = False, visited_flag = True\<rparr>] 1 False)"
  by (simp add: facing_pose_def track_eval)

lemma track_near_aortic_fresh:
  "track_pose ''heart'' [] facing_pose (Some [hand_at palm_near_aortic]) 640 480 =
     Inr ([(''Aortic'', True), (''Pulmonic'', False), (''Erb's Pt'', False),
           (''Tricuspid'', False), (''Mitral'', False)],
          Annotated
            [\<lparr>d_target = \<lparr>name = ''Aortic'', pos = (306, 148), order = 1\<rparr>,
               aligned_this_frame = True, visited_flag = True\<rparr>,
             \<lparr>d_target = \<lparr>name = ''Pulmonic'', pos = (334, 148), order = 2\<rparr>,
               aligned_this_frame = False, visited_flag = False\<rparr>,
             \<lparr>d_target = \<lparr>name = ''Erb's Pt'', pos = (334, 170), order = 3\<rparr>,
               aligned_this_frame = False, visited_flag = False\<rparr>,
             \<lparr>d_target = \<lparr>name = ''Tricuspid'', pos = (334, 192), order = 4\<rparr>,
               aligned_this_frame = False, visited_flag = False\<rparr>,
             \<lparr>d_target = \<lparr>name = ''Mitral'', pos = (360, 213), order = 5\<rparr>,
               aligned_this_frame = False, visited_flag = False\<rparr>] 1 False)"
  by (simp add: facing_pose_def track_eval)

lemma loop_near_aortic_stale:
  "loop_body (capture_of [facing_pose] [hand_at palm_near_aortic])
      (second_frame, init_state\<lparr>visited := [(''R Apex'', True), (''Mitral'', True)]\<rparr>) =
   Inr (\<lparr>frame_idx = 2, last_pose_res = Some [facing_pose],
         last_hand_res = Some [hand_at palm_near_aortic]\<rparr>,
        \<lparr>mode = ''heart'',
         visited = [(''Mitral'', True), (''Aortic'', True), (''Pulmonic'', False),
                    (''Erb's Pt'', False), (''Tricuspid'', False)],
         reset_requested = False, running = True,
         jpeg_frame = Some (Annotated
            [\<lparr>d_target = \<lparr>name = ''Aortic'', pos = (306, 148), order = 1\<rparr>,
               aligned_this_frame = True, visited_flag = True\<rparr>,
             \<lparr>d_target = \<lparr>name = ''Pulmonic'', pos = (334, 148), order = 2\<rparr>,
               aligned_this_frame = False, visited_flag = False\<rparr>,
             \<lparr>d_target = \<lparr>name = ''Erb's Pt'', pos = (334, 170), order = 3\<rparr>,
               aligned_this_frame = False, visited_flag = False\<rparr>,
             \<lparr>d_target = \<lparr>name = ''Tricuspid'', pos = (334, 192), order = 4\<rparr>,
               aligned_this_frame = False, visited_flag = False\<rparr>,
             \<lparr>d_target = \<lparr>name = ''Mitral'', pos = (360, 213), order = 5\<rparr>,
               aligned_this_frame = False, visited_flag = True\<rparr>] 1 False),
         frame_event_sets = 1\<rparr>)"
  by (simp add: loop_eval track_near_aortic_stale)

subsection \<open>Whole frames of the standalone trackers\<close>

lemma hl_compute_targets_total:
  "25 \<le> length plm \<Longrightarrow> \<exists>ts a. hl_compute_targets md plm w h = Inr (ts, a)"
  using hl_compute_lung_points_Inr [of plm w h] hl_compute_cardiac_points_Inr [of plm w h]
  unfolding hl_compute_targets_def by (cases "md = ''lung''") auto

lemma hl_track_pose_total:
  assumes "29 \<le> length plm" and "wf_hand_res hands"
  shows "\<exists>vis2 content. hl_track_pose md vis plm hands w h = Inr (vis2, content)"
proof -
  obtain ts a where c: "hl_compute_targets md plm w h = Inr (ts, a)"
    using hl_compute_targets_total [of plm md w h] assms(1) by fastforce
  have hp: "collect_hand_positions hands w h = Inr (map (\<lambda>hlm. px (hlm ! 9) w h) hands)"
    using assms(2) by (rule collect_hand_positions_total)
  have sk: "draw_skeleton plm w h = Inr ()"
    using assms(1) by (simp add: draw_skeleton_def py_index_def)
  show ?thesis
    by (simp add: hl_track_pose_def Let_def c hp sk split: prod.splits)
qed

lemma ht_track_pose_total:
  assumes "29 \<le> length plm" and "wf_hand_res hands"
  shows "\<exists>vis2 content. ht_track_pose vis plm hands w h = Inr (vis2, content)"
proof -
  obtain ts a where c: "ht_compute_cardiac_points plm w h = Inr (ts, a)"
    using ht_compute_cardiac_points_Inr [of plm w h] assms(1) by fastforce
  have hp: "collect_hand_positions hands w h = Inr (map (\<lambda>hlm. px (hlm ! 9) w h) hands)"
    using assms(2) by (rule collect_hand_positions_total)
  have sk: "draw_skeleton plm w h = Inr ()"
    using assms(1) by (simp add: draw_skeleton_def py_index_def)
  show ?thesis
    by (simp add: ht_track_pose_def Let_def c hp sk draw_connection_lines_Inr split: prod.splits)
qed

lemma keys_values_cleared:
  "fst ` set (map (\<lambda>(n, b). (n, False)) vis) = fst ` set vis"
  by (simp add: image_image case_prod_beta)

lemma ht_on_key_keys:
  "\<exists>vis' go. ht_on_key k content vis = Shown content vis' go \<and> fst ` set vis' = fst ` set vis"
  unfolding ht_on_key_def using keys_values_cleared [of vis] by auto

lemma ht_loop_body_keys:
  assumes "wf_capture kc" and "fst ` set vis \<subseteq> set (target_names True)"
  shows "ht_loop_body kc vis = Inr ReadFailed \<and> \<not> ret kc
       \<or> (\<exists>content vis' go. ht_loop_body kc vis = Inr (Shown content vis' go) \<and> ret kc
             \<and> fst ` set vis' \<subseteq> set (target_names True)
             \<and> (pose_landmarks kc \<noteq> [] \<longrightarrow> fst ` set vis' = set (target_names True)))"
proof (cases "ret kc")
  case False
  then show ?thesis by (simp add: ht_loop_body_def)
next
  case True
  show ?thesis
  proof (cases "pose_landmarks kc")
    case Nil
    obtain vis' go where k: "ht_on_key (key kc) HT_StepIntoFrame vis = Shown HT_StepIntoFrame vis' go"
      and kk: "fst ` set vis' = fst ` set vis"
      using ht_on_key_keys by blast
    have "ht_loop_body kc vis = Inr (Shown HT_StepIntoFrame vis' go)"
      using True Nil k by (simp add: ht_loop_body_def)
    then show ?thesis
      using kk assms(2) True Nil by auto
  next
    case (Cons plm ps)
    have len: "29 \<le> length plm" and wh: "wf_hand_res (hand_landmarks kc)"
      using assms(1) Cons by (simp_all add: wf_capture_def wf_pose_res_def)
    obtain vis2 content where
      t: "ht_track_pose vis plm (hand_landmarks kc) (frame_w kc) (frame_h kc) = Inr (vis2, content)"
      using ht_track_pose_total [OF len wh] by blast
    obtain ts :: "htarget list" and a where
      kv: "fst ` set vis2 = fst ` set vis \<union> name ` set ts"
      and nm: "map name ts = target_names True"
      using ht_track_pose_keys [OF t] by blast
    have ns: "name ` set ts = set (target_names True)"
      using nm by (metis set_map)
    have k2: "fst ` set vis2 = set (target_names True)"
      using kv ns assms(2) by auto
    obtain vis' go where k: "ht_on_key (key kc) content vis2 = Shown content vis' go"
      and kk: "fst ` set vis' = fst ` set vis2"
      using ht_on_key_keys by blast
    have "ht_loop_body kc vis = Inr (Shown content vis' go)"
      using True Cons t k by (simp add: ht_loop_body_def)
    then show ?thesis
      using kk k2 True by auto
  qed
qed

lemma wf_second_frame: "wf_vars second_frame"
  by (simp add: wf_vars_def second_frame_def)

lemma wf_capture_of:
  "wf_capture (capture_of ps hs) = (wf_pose_res ps \<and> wf_hand_res hs)"
  by (simp add: wf_capture_def capture_of_def)

lemma wf_examples:
  "wf_pose_res [facing_pose]" "wf_pose_res []" "wf_hand_res [hand_at p]" "wf_hand_res []"
  by (simp_all add: wf_pose_res_def wf_hand_res_def facing_pose_def length_pose_at length_hand_at)

lemma detect_second_frame:
  "detect (capture_of ps hs) second_frame =
     \<lparr>frame_idx = 2, last_pose_res = Some ps, last_hand_res = Some hs\<rparr>"
  by (simp add: detect_def capture_of_def second_frame_def Let_def)

lemma ht_main_loop_keys:
  assumes "\<forall>c\<in>set cs. wf_capture c" and "fst ` set vis \<subseteq> set (target_names True)"
  shows "\<exists>v. ht_main_loop cs vis = Inr v \<and> fst ` set v \<subseteq> set (target_names True)"
  using assms
proof (induction cs arbitrary: vis)
  case Nil
  then show ?case by simp
next
  case (Cons c cs)
  have w: "wf_capture c" using Cons.prems(1) by simp
  have ws: "\<forall>c\<in>set cs. wf_capture c" using Cons.prems(1) by simp
  from ht_loop_body_keys [OF w Cons.prems(2)] show ?case
  proof
    assume "ht_loop_body c vis = Inr ReadFailed \<and> \<not> ret c"
    then show ?thesis using Cons.prems(2) by simp
  next
    assume "\<exists>content vis' go. ht_loop_body c vis = Inr (Shown content vis' go) \<and> ret c
             \<and> fst ` set vis' \<subseteq> set (target_names True)
             \<and> (pose_landmarks c \<noteq> [] \<longrightarrow> fst ` set vis' = set (target_names True))"
    then obtain content vis' go where
      e: "ht_loop_body c vis = Inr (Shown content vis' go)"
      and k: "fst ` set vis' \<subseteq> set (target_names True)"
      by (elim exE conjE)
    show ?thesis
    proof (cases go)
      case True
      then show ?thesis using Cons.IH [OF ws k] e by simp
    next
      case False
      then show ?thesis using e k by simp
    qed
  qed
qed

text \<open>
  Claim C7. The resynchronisation turns any dict into one whose key set is exactly the
  set of names of the frame's targets: an entry whose key is no target name is dropped,
  an entry of a target name keeps its value, and a target name without an entry gets
  the value false. Hence at the end of every server iteration that has a pose, the key
  set of the visited dict equals the name set of the targets computed in that frame for
  the active mode, which is the fixed name list of that mode, and distinct keys stay
  distinct. The same holds for a frame of the standalone lung tracker. The heart
  tracker only completes the dict; its dict starts empty and it has one mode, so after
  any run of its loop every frame with a pose leaves exactly the five cardiac names.
\<close>

theorem visited_keys_resynced:
  "fst ` set (sync_visited ts vis) = name ` set ts
   \<and> (\<forall>n. map_of (sync_visited ts vis) n =
          (if n \<in> name ` set ts then Some (dict_get vis n False) else None))
   \<and> (wf_vars l \<and> wf_capture c \<and> ret c \<and> last_pose_res (detect c l) = Some (plm # ps) \<longrightarrow>
        (\<exists>s' tg a. loop_body c (l, s) = Inr (detect c l, s') \<and> mode s' = mode s
            \<and> compute_targets (mode s = ''heart'') plm (frame_w c) (frame_h c) = Inr (tg, a)
            \<and> fst ` set (visited s') = name ` set tg
            \<and> map name tg = target_names (mode s = ''heart'')
            \<and> (distinct (map fst (visited s)) \<longrightarrow> distinct (map fst (visited s')))))
   \<and> (29 \<le> length hplm \<and> wf_hand_res hands \<longrightarrow>
        (\<exists>hvis2 hcontent tg a. hl_track_pose md hvis hplm hands w h = Inr (hvis2, hcontent)
            \<and> hl_compute_targets md hplm w h = Inr (tg, a)
            \<and> fst ` set hvis2 = name ` set tg
            \<and> map name tg = target_names (md \<noteq> ''lung'')))
   \<and> ((\<forall>kc\<in>set kcs. wf_capture kc) \<and> 29 \<le> length hplm \<and> wf_hand_res hands \<longrightarrow>
        (\<exists>tvis tvis2 tcontent tg a. ht_main_loop kcs [] = Inr tvis
            \<and> ht_track_pose tvis hplm hands w h = Inr (tvis2, tcontent)
            \<and> ht_compute_cardiac_points hplm w h = Inr (tg, a)
            \<and> fst ` set tvis2 = name ` set tg
            \<and> map name tg = target_names True))"
proof -
  have 1: "fst ` set (sync_visited ts vis) = name ` set ts"
    by (rule keys_sync_visited)
  have 2: "\<forall>n. map_of (sync_visited ts vis) n =
          (if n \<in> name ` set ts then Some (dict_get vis n False) else None)"
    using map_of_sync_visited [of ts vis] by simp
  have 3: "wf_vars l \<and> wf_capture c \<and> ret c \<and> last_pose_res (detect c l) = Some (plm # ps) \<longrightarrow>
        (\<exists>s' tg a. loop_body c (l, s) = Inr (detect c l, s') \<and> mode s' = mode s
            \<and> compute_targets (mode s = ''heart'') plm (frame_w c) (frame_h c) = Inr (tg, a)
            \<and> fst ` set (visited s') = name ` set tg
            \<and> map name tg = target_names (mode s = ''heart'')
            \<and> (distinct (map fst (visited s)) \<longrightarrow> distinct (map fst (visited s'))))"
  proof
    assume a: "wf_vars l \<and> wf_capture c \<and> ret c \<and> last_pose_res (detect c l) = Some (plm # ps)"
    then obtain s' where lb: "loop_body c (l, s) = Inr (detect c l, s')"
      using loop_body_total [of l c s] by auto
    have r: "ret c" and lp: "last_pose_res (detect c l) = Some (plm # ps)"
      using a by simp_all
    note pk = loop_body_pose_keys [OF lb r lp]
    have m: "mode s' = mode s"
      using pk by (rule conjunct1)
    have e: "\<exists>ts a. compute_targets (mode s = ''heart'') plm (frame_w c) (frame_h c) = Inr (ts, a)
             \<and> fst ` set (visited s') = name ` set ts
             \<and> map name ts = target_names (mode s = ''heart'')"
      using pk by (rule conjunct1 [OF conjunct2])
    have d: "distinct (map fst (visited s)) \<longrightarrow> distinct (map fst (visited s'))"
      using pk by (rule conjunct2 [OF conjunct2])
    from e obtain tg :: "otarget list" and b where
      c: "compute_targets (mode s = ''heart'') plm (frame_w c) (frame_h c) = Inr (tg, b)"
      and k: "fst ` set (visited s') = name ` set tg"
      and n: "map name tg = target_names (mode s = ''heart'')"
      by (elim exE conjE)
    show "\<exists>s' tg a. loop_body c (l, s) = Inr (detect c l, s') \<and> mode s' = mode s
            \<and> compute_targets (mode s = ''heart'') plm (frame_w c) (frame_h c) = Inr (tg, a)
            \<and> fst ` set (visited s') = name ` set tg
            \<and> map name tg = target_names (mode s = ''heart'')
            \<and> (distinct (map fst (visited s)) \<longrightarrow> distinct (map fst (visited s')))"
      by (rule exI [of _ s'], rule exI [of _ tg], rule exI [of _ b]) (intro conjI lb m c k n d)
  qed
  have 4: "29 \<le> length hplm \<and> wf_hand_res hands \<longrightarrow>
        (\<exists>hvis2 hcontent tg a. hl_track_pose md hvis hplm hands w h = Inr (hvis2, hcontent)
            \<and> hl_compute_targets md hplm w h = Inr (tg, a)
            \<and> fst ` set hvis2 = name ` set tg
            \<and> map name tg = target_names (md \<noteq> ''lung''))"
  proof
    assume a: "29 \<le> length hplm \<and> wf_hand_res hands"
    then obtain hvis2 hcontent where t: "hl_track_pose md hvis hplm hands w h = Inr (hvis2, hcontent)"
      using hl_track_pose_total [of hplm hands md hvis w h] by blast
    from hl_track_pose_keys [OF t] obtain tg :: "starget list" and b where
      c: "hl_compute_targets md hplm w h = Inr (tg, b)"
      and k: "fst ` set hvis2 = name ` set tg"
      and n: "map name tg = target_names (md \<noteq> ''lung'')"
      by (elim exE conjE)
    show "\<exists>hvis2 hcontent tg a. hl_track_pose md hvis hplm hands w h = Inr (hvis2, hcontent)
            \<and> hl_compute_targets md hplm w h = Inr (tg, a)
            \<and> fst ` set hvis2 = name ` set tg
            \<and> map name tg = target_names (md \<noteq> ''lung'')"
      by (rule exI [of _ hvis2], rule exI [of _ hcontent], rule exI [of _ tg], rule exI [of _ b])
         (intro conjI t c k n)
  qed
  have 5: "(\<forall>kc\<in>set kcs. wf_capture kc) \<and> 29 \<le> length hplm \<and> wf_hand_res hands \<longrightarrow>
        (\<exists>tvis tvis2 tcontent tg a. ht_main_loop kcs [] = Inr tvis
            \<and> ht_track_pose tvis hplm hands w h = Inr (tvis2, tcontent)
            \<and> ht_compute_cardiac_points hplm w h = Inr (tg, a)
            \<and> fst ` set tvis2 = name ` set tg
            \<and> map name tg = target_names True)"
  proof
    assume a: "(\<forall>kc\<in>set kcs. wf_capture kc) \<and> 29 \<le> length hplm \<and> wf_hand_res hands"
    then have wk: "\<forall>kc\<in>set kcs. wf_capture kc"
      by (rule conjunct1)
    have "fst ` set ([] :: bool dict) \<subseteq> set (target_names True)"
      by simp
    from ht_main_loop_keys [OF wk this] obtain tvis where
      r: "ht_main_loop kcs [] = Inr tvis" and sub: "fst ` set tvis \<subseteq> set (target_names True)"
      by (elim exE conjE)
    obtain tvis2 tcontent where t: "ht_track_pose tvis hplm hands w h = Inr (tvis2, tcontent)"
      using a ht_track_pose_total [of hplm hands tvis w h] by blast
    from ht_track_pose_keys [OF t] obtain tg :: "htarget list" and b where
      c: "ht_compute_cardiac_points hplm w h = Inr (tg, b)"
      and kv: "fst ` set tvis2 = fst ` set tvis \<union> name ` set tg"
      and nm: "map name tg = target_names True"
      by (elim exE conjE)
    have "set (map name tg) = set (target_names True)"
      using nm by (rule arg_cong)
    then have "name ` set tg = set (target_names True)"
      by simp
    then have k: "fst ` set tvis2 = name ` set tg"
      using kv sub by auto
    show "\<exists>tvis tvis2 tcontent tg a. ht_main_loop kcs [] = Inr tvis
            \<and> ht_track_pose tvis hplm hands w h = Inr (tvis2, tcontent)
            \<and> ht_compute_cardiac_points hplm w h = Inr (tg, a)
            \<and> fst ` set tvis2 = name ` set tg
            \<and> map name tg = target_names True"
      by (rule exI [of _ tvis], rule exI [of _ tvis2], rule exI [of _ tcontent],
          rule exI [of _ tg], rule exI [of _ b])
         (intro conjI r t c k nm)
  qed
  show ?thesis
    by (intro conjI 1 2 3 4 5)
qed

theorem visited_keys_resynced_witness:
  "(\<exists>s'. loop_body (capture_of [facing_pose] [hand_at palm_near_aortic])
            (second_frame, init_state\<lparr>visited := [(''R Apex'', True), (''Mitral'', True)]\<rparr>) =
          Inr (\<lparr>frame_idx = 2, last_pose_res = Some [facing_pose],
                last_hand_res = Some [hand_at palm_near_aortic]\<rparr>, s')
        \<and> visited s' = [(''Mitral'', True), (''Aortic'', True), (''Pulmonic'', False),
                         (''Erb's Pt'', False), (''Tricuspid'', False)]
        \<and> fst ` set (visited s') = set (target_names True))
   \<and> (\<exists>hvis2 hcontent. hl_track_pose ''lung'' [(''Mitral'', True)] facing_pose [] 640 480
            = Inr (hvis2, hcontent)
        \<and> fst ` set hvis2 = set (target_names False))
   \<and> (\<exists>tvis2 tcontent. ht_track_pose [] facing_pose [] 640 480 = Inr (tvis2, tcontent)
        \<and> fst ` set tvis2 = set (target_names True))"
proof -
  let ?c = "capture_of [facing_pose] [hand_at palm_near_aortic]"
  let ?s = "init_state\<lparr>visited := [(''R Apex'', True), (''Mitral'', True)]\<rparr>"
  have d: "detect ?c second_frame =
             \<lparr>frame_idx = 2, last_pose_res = Some [facing_pose],
              last_hand_res = Some [hand_at palm_near_aortic]\<rparr>"
    by (rule detect_second_frame)
  have h: "wf_vars second_frame \<and> wf_capture ?c \<and> ret ?c
             \<and> last_pose_res (detect ?c second_frame) = Some (facing_pose # [])"
    unfolding d by (simp add: wf_second_frame wf_capture_of wf_examples) (simp add: capture_of_def)
  have len: "29 \<le> length facing_pose \<and> wf_hand_res []"
    by (simp add: facing_pose_def length_pose_at wf_examples)
  have len2: "(\<forall>kc\<in>set ([] :: key_capture list). wf_capture kc)
                \<and> 29 \<le> length facing_pose \<and> wf_hand_res []"
    using len by simp
  note t = visited_keys_resynced
    [where c = ?c and l = second_frame and s = ?s and plm = facing_pose and ps = "[]"
       and hplm = facing_pose and hands = "[]" and md = "''lung''" and hvis = "[(''Mitral'', True)]"
       and w = 640 and h = 480 and kcs = "[]"]
  have t3: "\<exists>s' tg a. loop_body ?c (second_frame, ?s) = Inr (detect ?c second_frame, s')
            \<and> mode s' = mode ?s
            \<and> compute_targets (mode ?s = ''heart'') facing_pose (frame_w ?c) (frame_h ?c) = Inr (tg, a)
            \<and> fst ` set (visited s') = name ` set tg
            \<and> map name tg = target_names (mode ?s = ''heart'')
            \<and> (distinct (map fst (visited ?s)) \<longrightarrow> distinct (map fst (visited s')))"
    using t [THEN conjunct2, THEN conjunct2, THEN conjunct1] h by (rule mp)
  have t4: "\<exists>hvis2 hcontent tg a.
              hl_track_pose ''lung'' [(''Mitral'', True)] facing_pose [] 640 480 = Inr (hvis2, hcontent)
            \<and> hl_compute_targets ''lung'' facing_pose 640 480 = Inr (tg, a)
            \<and> fst ` set hvis2 = name ` set tg
            \<and> map name tg = target_names (''lung'' \<noteq> ''lung'')"
    using t [THEN conjunct2, THEN conjunct2, THEN conjunct2, THEN conjunct1] len by (rule mp)
  have t5: "\<exists>tvis tvis2 tcontent tg a. ht_main_loop [] [] = Inr tvis
            \<and> ht_track_pose tvis facing_pose [] 640 480 = Inr (tvis2, tcontent)
            \<and> ht_compute_cardiac_points facing_pose 640 480 = Inr (tg, a)
            \<and> fst ` set tvis2 = name ` set tg
            \<and> map name tg = target_names True"
    using t [THEN conjunct2, THEN conjunct2, THEN conjunct2, THEN conjunct2] len2
    by (rule mp)
  from t3 obtain s' and tg :: "otarget list" where
    lb: "loop_body ?c (second_frame, ?s) = Inr (detect ?c second_frame, s')"
    and k: "fst ` set (visited s') = name ` set tg"
    and n: "map name tg = target_names (mode ?s = ''heart'')"
    by (elim exE conjE)
  have m: "mode ?s = ''heart''"
    by (simp add: init_state_def)
  have "set (map name tg) = set (target_names True)"
    using n m by simp
  then have k': "fst ` set (visited s') = set (target_names True)"
    using k by simp
  have v: "visited s' = [(''Mitral'', True), (''Aortic'', True), (''Pulmonic'', False),
                         (''Erb's Pt'', False), (''Tricuspid'', False)]"
    using lb unfolding loop_near_aortic_stale by auto
  have A: "\<exists>s'. loop_body ?c (second_frame, ?s) =
          Inr (\<lparr>frame_idx = 2, last_pose_res = Some [facing_pose],
                last_hand_res = Some [hand_at palm_near_aortic]\<rparr>, s')
        \<and> visited s' = [(''Mitral'', True), (''Aortic'', True), (''Pulmonic'', False),
                         (''Erb's Pt'', False), (''Tricuspid'', False)]
        \<and> fst ` set (visited s') = set (target_names True)"
    by (rule exI [of _ s']) (intro conjI lb [unfolded d] v k')
  from t4 obtain hvis2 hcontent and hg :: "starget list" where
    h1: "hl_track_pose ''lung'' [(''Mitral'', True)] facing_pose [] 640 480 = Inr (hvis2, hcontent)"
    and h2: "fst ` set hvis2 = name ` set hg"
    and h3: "map name hg = target_names (''lung'' \<noteq> ''lung'')"
    by (elim exE conjE)
  have "set (map name hg) = set (target_names False)"
    using h3 by simp
  then have h4: "fst ` set hvis2 = set (target_names False)"
    using h2 by simp
  have B: "\<exists>hvis2 hcontent. hl_track_pose ''lung'' [(''Mitral'', True)] facing_pose [] 640 480
            = Inr (hvis2, hcontent) \<and> fst ` set hvis2 = set (target_names False)"
    by (rule exI [of _ hvis2], rule exI [of _ hcontent]) (intro conjI h1 h4)
  from t5 obtain tvis tvis2 tcontent and hg2 :: "htarget list" where
    g0: "ht_main_loop [] [] = Inr tvis"
    and g1': "ht_track_pose tvis facing_pose [] 640 480 = Inr (tvis2, tcontent)"
    and g2: "fst ` set tvis2 = name ` set hg2"
    and g3: "map name hg2 = target_names True"
    by (elim exE conjE)
  have "tvis = []"
    using g0 by simp
  then have g1: "ht_track_pose [] facing_pose [] 640 480 = Inr (tvis2, tcontent)"
    using g1' by simp
  have "set (map name hg2) = set (target_names True)"
    using g3 by simp
  then have g4: "fst ` set tvis2 = set (target_names True)"
    using g2 by simp
  have C: "\<exists>tvis2 tcontent. ht_track_pose [] facing_pose [] 640 480 = Inr (tvis2, tcontent)
        \<and> fst ` set tvis2 = set (target_names True)"
    by (rule exI [of _ tvis2], rule exI [of _ tcontent]) (intro conjI g1 g4)
  show ?thesis
    by (intro conjI A B C)
qed

end
